theory Spec2Isabelle
  imports Main "HOL-Library.AList"
begin

section \<open>aredis pub/sub: data model\<close>

text \<open>
  The values that travel through \<^verbatim>\<open>aredis/pubsub.py\<close>: channel and pattern
  names, and the elements of a broker reply. Python distinguishes text (\<^verbatim>\<open>str\<close>)
  from raw bytes (\<^verbatim>\<open>bytes\<close>); the two never compare equal. Text is restricted
  here to code points below 256.
\<close>

datatype pyval = PStr string | PBytes string | PInt int

text \<open>
  The exception classes the module names, and \<open>Exc name\<close> for every other subclass
  of \<^verbatim>\<open>Exception\<close> (\<^verbatim>\<open>IndexError\<close>, \<^verbatim>\<open>TypeError\<close>, ...).
\<close>

datatype exn = CancelledError | ConnectionError | TimeoutError | Exc string

text \<open>A handler is a caller-supplied callable, known by an identifier.\<close>

type_synonym handler = nat

text \<open>
  The message dictionary built by \<^verbatim>\<open>handle_message\<close>; the key
  \<^verbatim>\<open>'pattern'\<close> holds \<^verbatim>\<open>None\<close> for everything but a \<^verbatim>\<open>pmessage\<close>.
\<close>

record message =
  mtype :: string
  pattern :: "pyval option"
  channel :: pyval
  data :: pyval

text \<open>
  A dictionary of the session is an association list with unique keys in insertion order;
  a value \<open>None\<close> is a name subscribed without a handler.
\<close>

type_synonym registry = "(pyval \<times> handler option) list"

text \<open>
  Every call into a collaborator (connection, pool, node table, clock, scheduler, console,
  handler) is recorded, in order, in the trace of the session. So are the two statements
  \<^verbatim>\<open>self.channels.update(new_channels)\<close> and
  \<^verbatim>\<open>self.patterns.update(new_patterns)\<close>, with the dictionary they add, so that
  the place of a registry update among the calls can be read off the trace.
\<close>

datatype event =
    GetConnection "pyval list"
  | RegisterConnectCallback nat
  | SendCommand nat "pyval list"
  | CanRead nat
  | Disconnect nat
  | Connect nat
  | ClearConnectCallbacks nat
  | PoolInitialize
  | IncrementReinitializeCounter
  | Sleep int
  | TimeTime
  | EnsureFutureReconnectClosed
  | Print string
  | PrintExc
  | Invoke handler message
  | UpdateChannels registry
  | UpdatePatterns registry

text \<open>
  The session object (\<^verbatim>\<open>PubSub\<close>, and \<^verbatim>\<open>ClusterPubSub\<close> when \<open>cluster\<close>
  is set). \<open>reconnect_closed_coro\<close> tells whether the health-check task has been
  started.
\<close>

record pubsub =
  cluster :: bool
  connection :: "nat option"
  channels :: registry
  patterns :: registry
  ignore_subscribe_messages :: bool
  decode_responses :: bool
  encoding :: string
  last_pong :: "nat option"
  reconnect_closed_coro :: bool
  trace :: "event list"

text \<open>
  The collaborators, which are not part of this module, are a parameter: each outcome is a
  function of the trace up to and including the call. \<open>send_outcome\<close> and
  \<open>connect_outcome\<close> give the exception raised by \<^verbatim>\<open>connection.send_command\<close>
  and \<^verbatim>\<open>connection.connect\<close> (\<open>None\<close>: the call returns);
  \<open>handler_outcome\<close> the same for a handler call. \<open>nativestr\<close> is the helper of
  \<^verbatim>\<open>aredis.utils\<close>; \<open>str_encode enc\<close> and \<open>bytes_decode enc\<close> are Python's
  \<^verbatim>\<open>str.encode(enc)\<close> and \<^verbatim>\<open>bytes.decode(enc)\<close>. The remaining collaborator
  calls (pool, node table, \<^verbatim>\<open>disconnect\<close>, \<^verbatim>\<open>can_read\<close>, sleep, clock,
  console) are taken to return normally.
\<close>

record env =
  send_outcome :: "event list \<Rightarrow> exn option"
  connect_outcome :: "event list \<Rightarrow> exn option"
  can_read_outcome :: "event list \<Rightarrow> bool"
  handler_outcome :: "event list \<Rightarrow> exn option"
  get_connection_result :: "event list \<Rightarrow> nat"
  retry_on_timeout :: "nat \<Rightarrow> bool"
  clock :: "event list \<Rightarrow> nat"
  nativestr :: "pyval \<Rightarrow> exn + string"
  str_encode :: "string \<Rightarrow> string \<Rightarrow> exn + string"
  bytes_decode :: "string \<Rightarrow> string \<Rightarrow> exn + string"
  cancelled_is_exception :: bool

text \<open>
  What \<^verbatim>\<open>except Exception\<close> catches. \<^verbatim>\<open>CancelledError\<close> is a subclass of
  \<^verbatim>\<open>Exception\<close> up to Python 3.7 and of \<^verbatim>\<open>BaseException\<close> only from
  Python 3.8 on; \<open>cancelled_is_exception\<close> says which interpreter runs the module.
\<close>

definition is_Exception :: "env \<Rightarrow> exn \<Rightarrow> bool" where
  "is_Exception env e \<longleftrightarrow> e \<noteq> CancelledError \<or> cancelled_is_exception env"

type_synonym 'a result = "(exn + 'a) \<times> pubsub"

definition emit :: "event \<Rightarrow> pubsub \<Rightarrow> pubsub" where
  "emit ev s = s\<lparr>trace := trace s @ [ev]\<rparr>"

text \<open>Python's \<^verbatim>\<open>xs[i]\<close> for a constant index \<open>i \<ge> 0\<close>.\<close>

definition index :: "'a list \<Rightarrow> nat \<Rightarrow> exn + 'a" where
  "index xs i = (if i < length xs then Inr (xs ! i) else Inl (Exc ''IndexError''))"

section \<open>Message dispatch\<close>

definition PUBLISH_MESSAGE_TYPES :: "string list" where
  "PUBLISH_MESSAGE_TYPES = [''message'', ''pmessage'']"

definition UNSUBSCRIBE_MESSAGE_TYPES :: "string list" where
  "UNSUBSCRIBE_MESSAGE_TYPES = [''unsubscribe'', ''punsubscribe'']"

text \<open>The first statement of \<^verbatim>\<open>handle_message\<close>: the message dictionary.\<close>

definition parse_message :: "env \<Rightarrow> pyval list \<Rightarrow> exn + message" where
  "parse_message env response =
     (case index response 0 of
        Inl e \<Rightarrow> Inl e
      | Inr r0 \<Rightarrow>
     (case nativestr env r0 of
        Inl e \<Rightarrow> Inl e
      | Inr message_type \<Rightarrow>
          if message_type = ''pmessage'' then
            (case index response 1 of Inl e \<Rightarrow> Inl e | Inr r1 \<Rightarrow>
            (case index response 2 of Inl e \<Rightarrow> Inl e | Inr r2 \<Rightarrow>
            (case index response 3 of Inl e \<Rightarrow> Inl e | Inr r3 \<Rightarrow>
               Inr \<lparr>mtype = message_type, pattern = Some r1, channel = r2, data = r3\<rparr>)))
          else
            (case index response 1 of Inl e \<Rightarrow> Inl e | Inr r1 \<Rightarrow>
            (case index response 2 of Inl e \<Rightarrow> Inl e | Inr r2 \<Rightarrow>
               Inr \<lparr>mtype = message_type, pattern = None, channel = r1, data = r2\<rparr>))))"

text \<open>
  \<^verbatim>\<open>del subscribed_dict[message['channel']]\<close> with the \<^verbatim>\<open>KeyError\<close>
  swallowed.
\<close>

definition forget :: "message \<Rightarrow> pubsub \<Rightarrow> pubsub" where
  "forget m s =
     (if mtype m \<in> set UNSUBSCRIBE_MESSAGE_TYPES then
        (if mtype m = ''punsubscribe''
         then s\<lparr>patterns := AList.delete (channel m) (patterns s)\<rparr>
         else s\<lparr>channels := AList.delete (channel m) (channels s)\<rparr>)
      else s)"

text \<open>
  \<^verbatim>\<open>dict.get(key, None)\<close>: the handler stored under the key, \<^verbatim>\<open>None\<close> when
  the key is absent or was subscribed without a handler.
\<close>

definition dict_get :: "registry \<Rightarrow> pyval \<Rightarrow> handler option" where
  "dict_get d k = (case map_of d k of None \<Rightarrow> None | Some h \<Rightarrow> h)"

definition call_handler :: "env \<Rightarrow> handler \<Rightarrow> message \<Rightarrow> pubsub \<Rightarrow> unit result" where
  "call_handler env h m s =
     (let s1 = emit (Invoke h m) s
      in case handler_outcome env (trace s1) of
           Some e \<Rightarrow> (Inl e, s1)
         | None \<Rightarrow> (Inr (), s1))"

definition handle_message :: "env \<Rightarrow> pyval list \<Rightarrow> bool \<Rightarrow> pubsub \<Rightarrow> message option result" where
  "handle_message env response ignore s =
     (case parse_message env response of
        Inl e \<Rightarrow> (Inl e, s)
      | Inr m \<Rightarrow>
          let s1 = forget m s in
          if mtype m \<in> set PUBLISH_MESSAGE_TYPES then
            (case (if mtype m = ''pmessage''
                   then (case pattern m of None \<Rightarrow> None | Some p \<Rightarrow> dict_get (patterns s1) p)
                   else dict_get (channels s1) (channel m)) of
               Some h \<Rightarrow>
                 (case call_handler env h m s1 of
                    (Inl e, s2) \<Rightarrow> (Inl e, s2)
                  | (Inr u, s2) \<Rightarrow> (Inr None, s2))
             | None \<Rightarrow> (Inr (Some m), s1))
          else if ignore \<or> ignore_subscribe_messages s1 then (Inr None, s1)
          else (Inr (Some m), s1))"

text \<open>\<^verbatim>\<open>ClusterPubSub.handle_message\<close>.\<close>

definition cluster_handle_message ::
    "env \<Rightarrow> pyval list \<Rightarrow> bool \<Rightarrow> pubsub \<Rightarrow> message option result" where
  "cluster_handle_message env response ignore s =
     (case index response 0 of
        Inl e \<Rightarrow> (Inl e, s)
      | Inr r0 \<Rightarrow>
          if r0 = PStr ''pong'' then
            (let s1 = emit TimeTime s
             in (Inr None, s1\<lparr>last_pong := Some (clock env (trace s1))\<rparr>))
          else if r0 \<notin> set [PStr ''message'', PStr ''subscribe''] then
            (Inr None, emit (Print ''response not recegnized'') s)
          else handle_message env response ignore s)"

section \<open>Command execution\<close>

text \<open>\<^verbatim>\<open>connection.send_command(*args)\<close>; it returns \<^verbatim>\<open>None\<close>.\<close>

definition send_command :: "env \<Rightarrow> nat \<Rightarrow> pyval list \<Rightarrow> pubsub \<Rightarrow> unit option result" where
  "send_command env conn args s =
     (let s1 = emit (SendCommand conn args) s
      in case send_outcome env (trace s1) of
           Some e \<Rightarrow> (Inl e, s1)
         | None \<Rightarrow> (Inr None, s1))"

text \<open>
  \<^verbatim>\<open>PubSub._execute(connection, command, *args)\<close>. The result is what the command
  returns, or \<^verbatim>\<open>None\<close> after a cancellation. \<^verbatim>\<open>connection.connect()\<close>
  is a call into the connection: the callbacks that the connection runs when the connect
  succeeds are not unfolded here.
\<close>

definition u_execute ::
    "env \<Rightarrow> nat \<Rightarrow> (pyval list \<Rightarrow> pubsub \<Rightarrow> 'a option result) \<Rightarrow> pyval list \<Rightarrow> pubsub
      \<Rightarrow> 'a option result" where
  "u_execute env conn command args s =
     (case command args s of
        (Inr v, s1) \<Rightarrow> (Inr v, s1)
      | (Inl e, s1) \<Rightarrow>
          if e = CancelledError then
            (let s2 = emit (CanRead conn) s1
             in if can_read_outcome env (trace s2)
                then (Inr None, emit (Disconnect conn) s2)
                else (Inr None, s2))
          else if e = ConnectionError \<or> e = TimeoutError then
            (let s2 = emit (Disconnect conn) s1
             in if \<not> retry_on_timeout env conn \<and> e = TimeoutError then (Inl e, s2)
                else
                  (let s3 = emit (Connect conn) s2
                   in case connect_outcome env (trace s3) of
                        Some e' \<Rightarrow>
                          if is_Exception env e'
                          then (Inl e', emit (ClearConnectCallbacks conn) s3)
                          else (Inl e', s3)
                      | None \<Rightarrow> command args s3))
          else (Inl e, s1))"

text \<open>\<^verbatim>\<open>PubSub.execute_command(*args)\<close>; \<open>args\<close> starts with the command name.\<close>

definition execute_command :: "env \<Rightarrow> pyval list \<Rightarrow> pubsub \<Rightarrow> unit option result" where
  "execute_command env args s =
     (case (case connection s of
              None \<Rightarrow>
                (let s1 = emit (GetConnection []) s;
                     c = get_connection_result env (trace s1)
                 in (c, emit (RegisterConnectCallback c) (s1\<lparr>connection := Some c\<rparr>)))
            | Some c \<Rightarrow> (c, s)) of
        (c, s2) \<Rightarrow>
          (case u_execute env c (send_command env c) args s2 of
             (Inl e, s3) \<Rightarrow> (Inl e, s3)
           | (Inr v, s3) \<Rightarrow> (Inr None, s3)))"

text \<open>
  The statements of \<^verbatim>\<open>ClusterPubSub.execute_command\<close> before its
  \<^verbatim>\<open>try\<close>: the pool is initialised and, when no connection is held, one is taken
  for the node of \<^verbatim>\<open>args[1]\<close>. The health-check task started by
  \<^verbatim>\<open>asyncio.ensure_future\<close> runs beside the session and is recorded only.
\<close>

definition cluster_acquire :: "env \<Rightarrow> pyval list \<Rightarrow> pubsub \<Rightarrow> nat result" where
  "cluster_acquire env args s =
     (let s0 = emit PoolInitialize s
      in case connection s0 of
           Some c \<Rightarrow> (Inr c, s0)
         | None \<Rightarrow>
             (case index args 1 of
                Inl e \<Rightarrow> (Inl e, s0)
              | Inr ch \<Rightarrow>
                  (let s1 = emit (GetConnection [PStr ''pubsub'', ch]) s0;
                       c = get_connection_result env (trace s1);
                       s2 = emit TimeTime (s1\<lparr>connection := Some c\<rparr>);
                       s3 = s2\<lparr>last_pong := Some (clock env (trace s2))\<rparr>;
                       s4 = emit (RegisterConnectCallback c) s3;
                       s5 = (if \<not> reconnect_closed_coro s4
                             then (emit EnsureFutureReconnectClosed s4)\<lparr>reconnect_closed_coro := True\<rparr>
                             else s4)
                   in (Inr c, s5))))"

text \<open>The \<^verbatim>\<open>except Exception\<close> block of the cluster variant, up to the recursive call.\<close>

definition cluster_backoff :: "int \<Rightarrow> pubsub \<Rightarrow> pubsub" where
  "cluster_backoff tries s =
     emit PrintExc (emit (Print ''Redis pubsub _execute exception'')
       (emit (Sleep (tries + 1)) ((emit IncrementReinitializeCounter s)\<lparr>connection := None\<rparr>)))"

function cluster_execute_command ::
    "env \<Rightarrow> pyval list \<Rightarrow> int \<Rightarrow> pubsub \<Rightarrow> unit option result" where
  "cluster_execute_command env args tries s =
     (case cluster_acquire env args s of
        (Inl e, s1) \<Rightarrow> (Inl e, s1)
      | (Inr c, s1) \<Rightarrow>
          (case u_execute env c (send_command env c) args s1 of
             (Inr v, s2) \<Rightarrow> (Inr None, s2)
           | (Inl e, s2) \<Rightarrow>
               if \<not> is_Exception env e then (Inl e, s2)
               else if tries > 25
               then (Inl e, emit (Print ''too many pubsub retries, giving up'') s2)
               else cluster_execute_command env args (tries + 1)
                      (cluster_backoff (tries + 1) s2)))"
  by pat_completeness auto
termination
  by (relation "measure (\<lambda>(env, args, tries, s). nat (26 - tries))") auto

declare cluster_execute_command.simps [simp del]

text \<open>\<^verbatim>\<open>self.execute_command\<close>, resolved by the class of the session.\<close>

definition self_execute_command :: "env \<Rightarrow> pyval list \<Rightarrow> pubsub \<Rightarrow> unit option result" where
  "self_execute_command env args s =
     (if cluster s then cluster_execute_command env args 0 s else execute_command env args s)"

section \<open>Subscription registry\<close>

definition encode :: "env \<Rightarrow> pubsub \<Rightarrow> pyval \<Rightarrow> exn + pyval" where
  "encode env s v =
     (case v of
        PBytes b \<Rightarrow>
          if decode_responses s
          then (case bytes_decode env (encoding s) b of Inl e \<Rightarrow> Inl e | Inr t \<Rightarrow> Inr (PStr t))
          else Inr v
      | PStr t \<Rightarrow>
          if \<not> decode_responses s
          then (case str_encode env (encoding s) t of Inl e \<Rightarrow> Inl e | Inr b \<Rightarrow> Inr (PBytes b))
          else Inr v
      | PInt i \<Rightarrow> Inr v)"

text \<open>\<^verbatim>\<open>map(self.encode, args)\<close>, stopping at the first name that fails.\<close>

fun encode_args :: "env \<Rightarrow> pubsub \<Rightarrow> pyval list \<Rightarrow> exn + pyval list" where
  "encode_args env s [] = Inr []"
| "encode_args env s (a # as) =
     (case encode env s a of
        Inl e \<Rightarrow> Inl e
      | Inr k \<Rightarrow> (case encode_args env s as of Inl e \<Rightarrow> Inl e | Inr ks \<Rightarrow> Inr (k # ks)))"

text \<open>\<^verbatim>\<open>dict.fromkeys(keys)\<close>: every key bound to \<^verbatim>\<open>None\<close>.\<close>

definition fromkeys :: "pyval list \<Rightarrow> registry" where
  "fromkeys ks = foldl (\<lambda>d k. AList.update k None d) [] ks"

text \<open>The loop over the keyword arguments: \<^verbatim>\<open>new[self.encode(name)] = handler\<close>.\<close>

fun add_kwargs ::
    "env \<Rightarrow> pubsub \<Rightarrow> (string \<times> handler option) list \<Rightarrow> registry \<Rightarrow> exn + registry" where
  "add_kwargs env s [] d = Inr d"
| "add_kwargs env s ((name, h) # kw) d =
     (case encode env s (PStr name) of
        Inl e \<Rightarrow> Inl e
      | Inr k \<Rightarrow> add_kwargs env s kw (AList.update k h d))"

text \<open>\<^verbatim>\<open>d.update(new)\<close>.\<close>

definition dict_update :: "registry \<Rightarrow> registry \<Rightarrow> registry" where
  "dict_update d new = foldl (\<lambda>d (k, v). AList.update k v d) d new"

text \<open>
  The dictionary that \<^verbatim>\<open>subscribe\<close> and \<^verbatim>\<open>psubscribe\<close> build before they
  send: the encoded positional names bound to \<^verbatim>\<open>None\<close>, then the encoded keyword
  names bound to their handlers. \<open>args\<close> is the list of names that
  \<^verbatim>\<open>list_or_args\<close> returns.
\<close>

definition new_registry ::
    "env \<Rightarrow> pubsub \<Rightarrow> pyval list \<Rightarrow> (string \<times> handler option) list \<Rightarrow> exn + registry" where
  "new_registry env s args kwargs =
     (case encode_args env s args of
        Inl e \<Rightarrow> Inl e
      | Inr ks \<Rightarrow> add_kwargs env s kwargs (fromkeys ks))"

text \<open>
  The statements \<^verbatim>\<open>self.channels.update(new_channels)\<close> and
  \<^verbatim>\<open>self.patterns.update(new_patterns)\<close>: the write, and its record in the trace.
\<close>

definition update_channels :: "registry \<Rightarrow> pubsub \<Rightarrow> pubsub" where
  "update_channels new s =
     emit (UpdateChannels new) (s\<lparr>channels := dict_update (channels s) new\<rparr>)"

definition update_patterns :: "registry \<Rightarrow> pubsub \<Rightarrow> pubsub" where
  "update_patterns new s =
     emit (UpdatePatterns new) (s\<lparr>patterns := dict_update (patterns s) new\<rparr>)"

text \<open>\<^verbatim>\<open>subscribe(*args, **kwargs)\<close> and \<^verbatim>\<open>psubscribe(*args, **kwargs)\<close>.\<close>

definition subscribe ::
    "env \<Rightarrow> pyval list \<Rightarrow> (string \<times> handler option) list \<Rightarrow> pubsub \<Rightarrow> unit option result" where
  "subscribe env args kwargs s =
     (case new_registry env s args kwargs of
        Inl e \<Rightarrow> (Inl e, s)
      | Inr new_channels \<Rightarrow>
          (case self_execute_command env (PStr ''SUBSCRIBE'' # map fst new_channels) s of
             (Inl e, s1) \<Rightarrow> (Inl e, s1)
           | (Inr ret_val, s1) \<Rightarrow>
               (Inr ret_val, update_channels new_channels s1)))"

definition psubscribe ::
    "env \<Rightarrow> pyval list \<Rightarrow> (string \<times> handler option) list \<Rightarrow> pubsub \<Rightarrow> unit option result" where
  "psubscribe env args kwargs s =
     (case new_registry env s args kwargs of
        Inl e \<Rightarrow> (Inl e, s)
      | Inr new_patterns \<Rightarrow>
          (case self_execute_command env (PStr ''PSUBSCRIBE'' # map fst new_patterns) s of
             (Inl e, s1) \<Rightarrow> (Inl e, s1)
           | (Inr ret_val, s1) \<Rightarrow>
               (Inr ret_val, update_patterns new_patterns s1)))"

section \<open>Replay on reconnect\<close>

text \<open>
  The loop of \<^verbatim>\<open>on_connect\<close> that rebuilds a dictionary with the keys decoded
  (\<^verbatim>\<open>k.decode(self.encoding)\<close> exists on \<^verbatim>\<open>bytes\<close> only).
\<close>

fun decode_keys :: "env \<Rightarrow> pubsub \<Rightarrow> registry \<Rightarrow> registry \<Rightarrow> exn + registry" where
  "decode_keys env s [] acc = Inr acc"
| "decode_keys env s ((k, v) # kvs) acc =
     (if \<not> decode_responses s then
        (case k of
           PBytes b \<Rightarrow>
             (case bytes_decode env (encoding s) b of
                Inl e \<Rightarrow> Inl e
              | Inr t \<Rightarrow> decode_keys env s kvs (AList.update (PStr t) v acc))
         | _ \<Rightarrow> Inl (Exc ''AttributeError''))
      else decode_keys env s kvs (AList.update k v acc))"

text \<open>
  Passing a dictionary as \<^verbatim>\<open>**kwargs\<close> to a method: every key must be a
  \<^verbatim>\<open>str\<close>, and none may name the parameter \<^verbatim>\<open>self\<close>.
\<close>

fun bind_kwargs :: "registry \<Rightarrow> exn + (string \<times> handler option) list" where
  "bind_kwargs [] = Inr []"
| "bind_kwargs ((k, v) # kvs) =
     (case k of
        PStr name \<Rightarrow>
          if name = ''self'' then Inl (Exc ''TypeError'')
          else (case bind_kwargs kvs of Inl e \<Rightarrow> Inl e | Inr kw \<Rightarrow> Inr ((name, v) # kw))
      | _ \<Rightarrow> Inl (Exc ''TypeError''))"

definition on_connect :: "env \<Rightarrow> pubsub \<Rightarrow> unit option result" where
  "on_connect env s =
     (case (if channels s \<noteq> [] then
              (case decode_keys env s (channels s) [] of
                 Inl e \<Rightarrow> (Inl e, s)
               | Inr chans \<Rightarrow>
                   (case bind_kwargs chans of
                      Inl e \<Rightarrow> (Inl e, s)
                    | Inr kw \<Rightarrow> subscribe env [] kw s))
            else (Inr None, s)) of
        (Inl e, s1) \<Rightarrow> (Inl e, s1)
      | (Inr u, s1) \<Rightarrow>
          if patterns s1 \<noteq> [] then
            (case decode_keys env s1 (patterns s1) [] of
               Inl e \<Rightarrow> (Inl e, s1)
             | Inr pats \<Rightarrow>
                 (case bind_kwargs pats of
                    Inl e \<Rightarrow> (Inl e, s1)
                  | Inr kw \<Rightarrow>
                      (case psubscribe env [] kw s1 of
                         (Inl e, s2) \<Rightarrow> (Inl e, s2)
                       | (Inr u', s2) \<Rightarrow> (Inr None, s2))))
          else (Inr None, s1))"

section \<open>Reading a trace\<close>

text \<open>
  \<open>transmitted_from env cmd h evs\<close>: among the calls \<open>evs\<close> that follow the history
  \<open>h\<close> there is a \<^verbatim>\<open>send_command\<close> of \<open>cmd\<close> that returned.
\<close>

fun transmitted_from :: "env \<Rightarrow> pyval list \<Rightarrow> event list \<Rightarrow> event list \<Rightarrow> bool" where
  "transmitted_from env cmd h [] = False"
| "transmitted_from env cmd h (ev # evs) =
     ((case ev of
         SendCommand c a \<Rightarrow> a = cmd \<and> send_outcome env (h @ [ev]) = None
       | _ \<Rightarrow> False)
      \<or> transmitted_from env cmd (h @ [ev]) evs)"



text \<open>
  The attempts of the cluster variant (each starts with \<^verbatim>\<open>connection_pool.initialize()\<close>),
  the arguments of its sleeps in order, and the increments of the reinitialisation counter.
\<close>

definition attempts :: "event list \<Rightarrow> nat" where
  "attempts h = length (filter (\<lambda>ev. ev = PoolInitialize) h)"

definition sleeps :: "event list \<Rightarrow> int list" where
  "sleeps h = concat (map (\<lambda>ev. case ev of Sleep n \<Rightarrow> [n] | _ \<Rightarrow> []) h)"

definition reinitializations :: "event list \<Rightarrow> nat" where
  "reinitializations h = length (filter (\<lambda>ev. ev = IncrementReinitializeCounter) h)"

definition acquisitions :: "event list \<Rightarrow> nat" where
  "acquisitions h = length (filter (\<lambda>ev. case ev of GetConnection a \<Rightarrow> True | _ \<Rightarrow> False) h)"

text \<open>
  \<open>keeps_registry s s'\<close>: from \<open>s\<close> to \<open>s'\<close> the two mappings and the settings of
  the session are as they were, and the trace has only grown.
\<close>

definition keeps_registry :: "pubsub \<Rightarrow> pubsub \<Rightarrow> bool" where
  "keeps_registry s s' \<longleftrightarrow>
     channels s' = channels s \<and> patterns s' = patterns s \<and>
     decode_responses s' = decode_responses s \<and> encoding s' = encoding s \<and>
     cluster s' = cluster s \<and> ignore_subscribe_messages s' = ignore_subscribe_messages s \<and>
     take (length (trace s)) (trace s') = trace s"

definition new_events :: "pubsub \<Rightarrow> pubsub \<Rightarrow> event list" where
  "new_events s s' = drop (length (trace s)) (trace s')"

section \<open>Keys that can be replayed\<close>

text \<open>
  \<open>replay_name env s k\<close> is the text under which \<^verbatim>\<open>on_connect\<close> can hand the stored
  key \<open>k\<close> back to \<^verbatim>\<open>subscribe\<close>: the key itself when the session decodes
  replies, and in raw-byte mode the decoded bytes, provided they encode to the same bytes
  again. The text \<^verbatim>\<open>self\<close> cannot be passed as a keyword. \<open>replay_kwargs\<close> is the
  mapping under these names, \<open>replayable\<close> says that every key has one.
\<close>

definition replay_name :: "env \<Rightarrow> pubsub \<Rightarrow> pyval \<Rightarrow> string option" where
  "replay_name env s k =
     (case k of
        PStr t \<Rightarrow> if decode_responses s \<and> t \<noteq> ''self'' then Some t else None
      | PBytes b \<Rightarrow>
          if decode_responses s then None
          else
            (case bytes_decode env (encoding s) b of
               Inl e \<Rightarrow> None
             | Inr t \<Rightarrow>
                 if t \<noteq> ''self'' \<and> str_encode env (encoding s) t = Inr b then Some t
                 else None)
      | PInt i \<Rightarrow> None)"

fun replay_kwargs :: "env \<Rightarrow> pubsub \<Rightarrow> registry \<Rightarrow> (string \<times> handler option) list" where
  "replay_kwargs env s [] = []"
| "replay_kwargs env s ((k, v) # d) =
     (case replay_name env s k of
        None \<Rightarrow> replay_kwargs env s d
      | Some t \<Rightarrow> (t, v) # replay_kwargs env s d)"

definition replayable :: "env \<Rightarrow> pubsub \<Rightarrow> registry \<Rightarrow> bool" where
  "replayable env s d \<longleftrightarrow>
     distinct (map fst d) \<and> list_all (\<lambda>(k, v). replay_name env s k \<noteq> None) d"

section \<open>A concrete environment\<close>

text \<open>
  The codecs \<^verbatim>\<open>'ascii'\<close> and \<^verbatim>\<open>'latin-1'\<close> of Python on text below code
  point 256; no other codec is described here. \<open>py_nativestr\<close> is
  \<^verbatim>\<open>nativestr\<close> on text and on ASCII bytes.
\<close>

definition ascii :: "string \<Rightarrow> bool" where
  "ascii t = list_all (\<lambda>c. (of_char c :: nat) < 128) t"

definition py_str_encode :: "string \<Rightarrow> string \<Rightarrow> exn + string" where
  "py_str_encode enc t =
     (if enc = ''latin-1'' then Inr t
      else if enc = ''ascii'' then (if ascii t then Inr t else Inl (Exc ''UnicodeEncodeError''))
      else Inl (Exc ''LookupError''))"

definition py_bytes_decode :: "string \<Rightarrow> string \<Rightarrow> exn + string" where
  "py_bytes_decode enc b =
     (if enc = ''latin-1'' then Inr b
      else if enc = ''ascii'' then (if ascii b then Inr b else Inl (Exc ''UnicodeDecodeError''))
      else Inl (Exc ''LookupError''))"

definition py_nativestr :: "pyval \<Rightarrow> exn + string" where
  "py_nativestr v =
     (case v of PStr t \<Rightarrow> Inr t | PBytes b \<Rightarrow> Inr b | PInt i \<Rightarrow> Inl (Exc ''AttributeError''))"

text \<open>
  An environment given by the outcomes of the sends and of the reconnects, by what
  \<^verbatim>\<open>can_read\<close> answers and by the \<^verbatim>\<open>retry_on_timeout\<close> setting of the
  connections; handlers return, the pool hands out connection 1, and the interpreter is
  one in which \<^verbatim>\<open>CancelledError\<close> is an \<^verbatim>\<open>Exception\<close>.
\<close>

definition script_env ::
    "(event list \<Rightarrow> exn option) \<Rightarrow> (event list \<Rightarrow> exn option) \<Rightarrow> bool \<Rightarrow> bool \<Rightarrow> env" where
  "script_env send conn readable rot =
     \<lparr>send_outcome = send, connect_outcome = conn, can_read_outcome = (\<lambda>h. readable),
      handler_outcome = (\<lambda>h. None), get_connection_result = (\<lambda>h. 1),
      retry_on_timeout = (\<lambda>c. rot), clock = (\<lambda>h. length h), nativestr = py_nativestr,
      str_encode = py_str_encode, bytes_decode = py_bytes_decode,
      cancelled_is_exception = True\<rparr>"

text \<open>The environment in which every send and every reconnect has the same outcome.\<close>

definition const_env :: "exn option \<Rightarrow> exn option \<Rightarrow> bool \<Rightarrow> bool \<Rightarrow> env" where
  "const_env send conn readable rot = script_env (\<lambda>h. send) (\<lambda>h. conn) readable rot"

text \<open>
  An environment whose sends always fail: with a connection error (the reconnect works,
  the second send fails too) in the first 26 attempts of the cluster variant, with another
  exception from the 27th attempt on.
\<close>

definition flaky_env :: env where
  "flaky_env =
     script_env (\<lambda>h. if attempts h < 27 then Some ConnectionError else Some (Exc ''last''))
       (\<lambda>h. None) False False"

definition quiet_env :: env where
  "quiet_env = script_env (\<lambda>h. None) (\<lambda>h. None) False False"

text \<open>The session as \<^verbatim>\<open>__init__\<close> leaves it.\<close>

definition new_pubsub :: "bool \<Rightarrow> bool \<Rightarrow> string \<Rightarrow> pubsub" where
  "new_pubsub is_cluster decode enc =
     \<lparr>cluster = is_cluster, connection = None, channels = [], patterns = [],
      ignore_subscribe_messages = False, decode_responses = decode, encoding = enc,
      last_pong = None, reconnect_closed_coro = False, trace = []\<rparr>"

text \<open>The message types of the data model.\<close>

definition known_types :: "string set" where
  "known_types =
     {''message'', ''pmessage'', ''subscribe'', ''unsubscribe'', ''psubscribe'', ''punsubscribe''}"

section \<open>Dispatch of a reply\<close>

lemma is_Exception_simps [simp]:
  "is_Exception env ConnectionError"
  "is_Exception env TimeoutError"
  "is_Exception env (Exc name)"
  "is_Exception env CancelledError = cancelled_is_exception env"
  by (simp_all add: is_Exception_def)

lemma parse_message_plain:
  "nativestr env r0 = Inr t \<Longrightarrow> t \<noteq> ''pmessage'' \<Longrightarrow>
   parse_message env (r0 # c # d # rest) = Inr \<lparr>mtype = t, pattern = None, channel = c, data = d\<rparr>"
  by (simp add: parse_message_def index_def)

lemma parse_message_pmessage:
  "nativestr env r0 = Inr ''pmessage'' \<Longrightarrow>
   parse_message env (r0 # p # c # d # rest) =
     Inr \<lparr>mtype = ''pmessage'', pattern = Some p, channel = c, data = d\<rparr>"
  by (simp add: parse_message_def index_def)

lemma handle_message_unsubscribe:
  assumes "nativestr env r0 = Inr ''unsubscribe''"
  shows "handle_message env (r0 # key # d # rest) ignore s =
     ((if ignore \<or> ignore_subscribe_messages s then Inr None
       else Inr (Some \<lparr>mtype = ''unsubscribe'', pattern = None, channel = key, data = d\<rparr>)),
      s\<lparr>channels := AList.delete key (channels s)\<rparr>)"
  using assms
  by (simp add: handle_message_def parse_message_plain forget_def
      UNSUBSCRIBE_MESSAGE_TYPES_def PUBLISH_MESSAGE_TYPES_def)

lemma handle_message_punsubscribe:
  assumes "nativestr env r0 = Inr ''punsubscribe''"
  shows "handle_message env (r0 # key # d # rest) ignore s =
     ((if ignore \<or> ignore_subscribe_messages s then Inr None
       else Inr (Some \<lparr>mtype = ''punsubscribe'', pattern = None, channel = key, data = d\<rparr>)),
      s\<lparr>patterns := AList.delete key (patterns s)\<rparr>)"
  using assms
  by (simp add: handle_message_def parse_message_plain forget_def
      UNSUBSCRIBE_MESSAGE_TYPES_def PUBLISH_MESSAGE_TYPES_def)

lemma handle_message_subscribe_ack:
  assumes "nativestr env r0 = Inr t" and "t = ''subscribe'' \<or> t = ''psubscribe''"
  shows "handle_message env (r0 # key # d # rest) ignore s =
     ((if ignore \<or> ignore_subscribe_messages s then Inr None
       else Inr (Some \<lparr>mtype = t, pattern = None, channel = key, data = d\<rparr>)), s)"
  using assms
  by (auto simp add: handle_message_def parse_message_plain forget_def
      UNSUBSCRIBE_MESSAGE_TYPES_def PUBLISH_MESSAGE_TYPES_def)

lemma handle_message_message:
  assumes "nativestr env r0 = Inr ''message''"
  shows "handle_message env (r0 # c # d # rest) ignore s =
     (let m = \<lparr>mtype = ''message'', pattern = None, channel = c, data = d\<rparr>
      in case dict_get (channels s) c of
           Some f \<Rightarrow>
             ((case handler_outcome env (trace s @ [Invoke f m]) of
                 None \<Rightarrow> Inr None | Some e \<Rightarrow> Inl e), emit (Invoke f m) s)
         | None \<Rightarrow> (Inr (Some m), s))"
  using assms
  by (simp add: handle_message_def parse_message_plain forget_def call_handler_def emit_def
      UNSUBSCRIBE_MESSAGE_TYPES_def PUBLISH_MESSAGE_TYPES_def Let_def split: option.splits)

lemma handle_message_pmessage:
  assumes "nativestr env r0 = Inr ''pmessage''"
  shows "handle_message env (r0 # p # c # d # rest) ignore s =
     (let m = \<lparr>mtype = ''pmessage'', pattern = Some p, channel = c, data = d\<rparr>
      in case dict_get (patterns s) p of
           Some f \<Rightarrow>
             ((case handler_outcome env (trace s @ [Invoke f m]) of
                 None \<Rightarrow> Inr None | Some e \<Rightarrow> Inl e), emit (Invoke f m) s)
         | None \<Rightarrow> (Inr (Some m), s))"
  using assms
  by (simp add: handle_message_def parse_message_pmessage forget_def call_handler_def emit_def
      UNSUBSCRIBE_MESSAGE_TYPES_def PUBLISH_MESSAGE_TYPES_def Let_def split: option.splits)

lemma cluster_handle_message_pong:
  "cluster_handle_message env (PStr ''pong'' # rest) ignore s =
     (Inr None, (emit TimeTime s)\<lparr>last_pong := Some (clock env (trace s @ [TimeTime]))\<rparr>)"
  by (simp add: cluster_handle_message_def index_def emit_def Let_def)

lemma cluster_handle_message_drop:
  "r0 \<noteq> PStr ''pong'' \<Longrightarrow> r0 \<noteq> PStr ''message'' \<Longrightarrow> r0 \<noteq> PStr ''subscribe'' \<Longrightarrow>
   cluster_handle_message env (r0 # rest) ignore s =
     (Inr None, emit (Print ''response not recegnized'') s)"
  by (simp add: cluster_handle_message_def index_def)

lemma cluster_handle_message_forward:
  "r0 = PStr ''message'' \<or> r0 = PStr ''subscribe'' \<Longrightarrow>
   cluster_handle_message env (r0 # rest) ignore s = handle_message env (r0 # rest) ignore s"
  by (auto simp add: cluster_handle_message_def index_def)

lemma quiet_env_simps:
  "nativestr quiet_env = py_nativestr"
  "handler_outcome quiet_env h = None"
  "send_outcome quiet_env h = None"
  "clock quiet_env h = length h"
  by (simp_all add: quiet_env_def script_env_def)

text \<open>
  C4. A reply of type \<^verbatim>\<open>message\<close> or \<^verbatim>\<open>pmessage\<close>: the handler is looked up
  under the channel (for \<^verbatim>\<open>pmessage\<close>: under the pattern). A registered handler is
  called exactly once, with the parsed message, nothing else happens, and
  \<^verbatim>\<open>handle_message\<close> returns \<^verbatim>\<open>None\<close> when the handler returns (what the
  handler raises is raised); without a handler the parsed message is the result and the
  session is untouched.
\<close>

theorem delivery_routed_to_handler_or_returned:
  "(nativestr env r0 = Inr ''message'' \<longrightarrow>
      (let m = \<lparr>mtype = ''message'', pattern = None, channel = c, data = d\<rparr>
       in case dict_get (channels s) c of
            Some f \<Rightarrow>
              handle_message env (r0 # c # d # rest) ignore s =
                ((case handler_outcome env (trace s @ [Invoke f m]) of
                    None \<Rightarrow> Inr None | Some e \<Rightarrow> Inl e), emit (Invoke f m) s)
          | None \<Rightarrow> handle_message env (r0 # c # d # rest) ignore s = (Inr (Some m), s)))
   \<and> (nativestr env r0 = Inr ''pmessage'' \<longrightarrow>
      (let m = \<lparr>mtype = ''pmessage'', pattern = Some p, channel = c, data = d\<rparr>
       in case dict_get (patterns s) p of
            Some f \<Rightarrow>
              handle_message env (r0 # p # c # d # rest) ignore s =
                ((case handler_outcome env (trace s @ [Invoke f m]) of
                    None \<Rightarrow> Inr None | Some e \<Rightarrow> Inl e), emit (Invoke f m) s)
          | None \<Rightarrow> handle_message env (r0 # p # c # d # rest) ignore s = (Inr (Some m), s)))"
  by (simp add: handle_message_message handle_message_pmessage Let_def split: option.splits)

theorem delivery_routed_to_handler_or_returned_witness:
  "handle_message quiet_env [PStr ''message'', PStr ''news'', PStr ''hello''] False
       ((new_pubsub False True ''ascii'')\<lparr>channels := [(PStr ''news'', Some 7)]\<rparr>)
     = (Inr None,
        emit (Invoke 7 \<lparr>mtype = ''message'', pattern = None, channel = PStr ''news'',
                        data = PStr ''hello''\<rparr>)
          ((new_pubsub False True ''ascii'')\<lparr>channels := [(PStr ''news'', Some 7)]\<rparr>))
   \<and> handle_message quiet_env [PStr ''message'', PStr ''news'', PStr ''hello''] False
       ((new_pubsub False True ''ascii'')\<lparr>channels := [(PStr ''news'', None)]\<rparr>)
     = (Inr (Some \<lparr>mtype = ''message'', pattern = None, channel = PStr ''news'',
                   data = PStr ''hello''\<rparr>),
        (new_pubsub False True ''ascii'')\<lparr>channels := [(PStr ''news'', None)]\<rparr>)
   \<and> handle_message quiet_env
       [PBytes ''pmessage'', PBytes ''n*'', PBytes ''news'', PBytes ''hello''] False
       ((new_pubsub False False ''ascii'')\<lparr>patterns := [(PBytes ''n*'', Some 3)]\<rparr>)
     = (Inr None,
        emit (Invoke 3 \<lparr>mtype = ''pmessage'', pattern = Some (PBytes ''n*''),
                        channel = PBytes ''news'', data = PBytes ''hello''\<rparr>)
          ((new_pubsub False False ''ascii'')\<lparr>patterns := [(PBytes ''n*'', Some 3)]\<rparr>))"
  using delivery_routed_to_handler_or_returned
          [where env = quiet_env and ?r0.0 = "PStr ''message''" and c = "PStr ''news''"
             and d = "PStr ''hello''" and rest = "[]" and ignore = False
             and s = "(new_pubsub False True ''ascii'')\<lparr>channels := [(PStr ''news'', Some 7)]\<rparr>"]
        delivery_routed_to_handler_or_returned
          [where env = quiet_env and ?r0.0 = "PStr ''message''" and c = "PStr ''news''"
             and d = "PStr ''hello''" and rest = "[]" and ignore = False
             and s = "(new_pubsub False True ''ascii'')\<lparr>channels := [(PStr ''news'', None)]\<rparr>"]
        delivery_routed_to_handler_or_returned
          [where env = quiet_env and ?r0.0 = "PBytes ''pmessage''" and p = "PBytes ''n*''"
             and c = "PBytes ''news''" and d = "PBytes ''hello''" and rest = "[]"
             and ignore = False
             and s = "(new_pubsub False False ''ascii'')\<lparr>patterns := [(PBytes ''n*'', Some 3)]\<rparr>"]
  by (simp add: quiet_env_simps py_nativestr_def dict_get_def new_pubsub_def Let_def)

text \<open>
  C5. A reply of type \<^verbatim>\<open>unsubscribe\<close> (\<^verbatim>\<open>punsubscribe\<close>) never makes
  \<^verbatim>\<open>handle_message\<close> raise; afterwards the named key is absent from the channel
  (pattern) mapping, every other key is bound as before, a key that was absent leaves the
  mapping as it was, and the other mapping is untouched.
\<close>

theorem unsubscribe_ack_removes_key:
  assumes "nativestr env r0 = Inr t" and "t = ''unsubscribe'' \<or> t = ''punsubscribe''"
  shows "\<exists>res s'. handle_message env (r0 # key # d # rest) ignore s = (Inr res, s') \<and>
     (t = ''unsubscribe'' \<longrightarrow>
        map_of (channels s') = (map_of (channels s))(key := None) \<and>
        key \<notin> fst ` set (channels s') \<and>
        (key \<notin> fst ` set (channels s) \<longrightarrow> channels s' = channels s) \<and>
        patterns s' = patterns s) \<and>
     (t = ''punsubscribe'' \<longrightarrow>
        map_of (patterns s') = (map_of (patterns s))(key := None) \<and>
        key \<notin> fst ` set (patterns s') \<and>
        (key \<notin> fst ` set (patterns s) \<longrightarrow> patterns s' = patterns s) \<and>
        channels s' = channels s)"
proof -
  consider (chan) "t = ''unsubscribe''" | (pat) "t = ''punsubscribe''"
    using assms(2) by blast
  then show ?thesis
  proof cases
    case chan
    with assms(1) show ?thesis
      by (simp add: handle_message_unsubscribe AList.delete_conv' AList.delete_notin_dom)
  next
    case pat
    with assms(1) show ?thesis
      by (simp add: handle_message_punsubscribe AList.delete_conv' AList.delete_notin_dom)
  qed
qed

theorem unsubscribe_ack_removes_key_witness:
  "(\<exists>res s'. handle_message quiet_env [PStr ''unsubscribe'', PStr ''x'', PInt 0] False
        ((new_pubsub False True ''ascii'')\<lparr>patterns := [(PStr ''x'', None)]\<rparr>) = (Inr res, s')
      \<and> channels s' = [] \<and> patterns s' = [(PStr ''x'', None)])
   \<and> (\<exists>res s'. handle_message quiet_env [PStr ''punsubscribe'', PStr ''n*'', PInt 0] False
        ((new_pubsub False True ''ascii'')
           \<lparr>channels := [(PStr ''n*'', None)], patterns := [(PStr ''n*'', Some 2), (PStr ''m*'', None)]\<rparr>)
          = (Inr res, s')
      \<and> channels s' = [(PStr ''n*'', None)] \<and> map_of (patterns s') (PStr ''n*'') = None
      \<and> map_of (patterns s') (PStr ''m*'') = Some None)"
  using unsubscribe_ack_removes_key
          [where env = quiet_env and ?r0.0 = "PStr ''unsubscribe''" and t = "''unsubscribe''"
             and key = "PStr ''x''" and d = "PInt 0" and rest = "[]" and ignore = False
             and s = "(new_pubsub False True ''ascii'')\<lparr>patterns := [(PStr ''x'', None)]\<rparr>"]
        unsubscribe_ack_removes_key
          [where env = quiet_env and ?r0.0 = "PStr ''punsubscribe''" and t = "''punsubscribe''"
             and key = "PStr ''n*''" and d = "PInt 0" and rest = "[]" and ignore = False
             and s = "(new_pubsub False True ''ascii'')
           \<lparr>channels := [(PStr ''n*'', None)], patterns := [(PStr ''n*'', Some 2), (PStr ''m*'', None)]\<rparr>"]
  by (auto simp add: quiet_env_simps py_nativestr_def new_pubsub_def)

text \<open>
  C6. For a subscribe or unsubscribe acknowledgement, \<^verbatim>\<open>handle_message\<close> returns
  \<^verbatim>\<open>None\<close> exactly when the argument \<^verbatim>\<open>ignore_subscribe_messages\<close> or the
  flag of the session is set; otherwise it returns the message with the type token, the
  channel, and no pattern.
\<close>

theorem acknowledgement_suppressed_iff_ignored:
  assumes "nativestr env r0 = Inr t"
    and "t \<in> {''subscribe'', ''unsubscribe'', ''psubscribe'', ''punsubscribe''}"
  shows "(fst (handle_message env (r0 # key # d # rest) ignore s) = Inr None
            \<longleftrightarrow> ignore \<or> ignore_subscribe_messages s)
     \<and> (\<not> (ignore \<or> ignore_subscribe_messages s) \<longrightarrow>
          fst (handle_message env (r0 # key # d # rest) ignore s)
            = Inr (Some \<lparr>mtype = t, pattern = None, channel = key, data = d\<rparr>))"
  using assms
  by (auto simp add: handle_message_unsubscribe handle_message_punsubscribe
      handle_message_subscribe_ack split: if_splits)

theorem acknowledgement_suppressed_iff_ignored_witness:
  "fst (handle_message quiet_env [PStr ''subscribe'', PStr ''news'', PInt 1] True
          (new_pubsub False True ''ascii'')) = Inr None
   \<and> fst (handle_message quiet_env [PStr ''subscribe'', PStr ''news'', PInt 1] False
          ((new_pubsub False True ''ascii'')\<lparr>ignore_subscribe_messages := True\<rparr>)) = Inr None
   \<and> fst (handle_message quiet_env [PStr ''subscribe'', PStr ''news'', PInt 1] False
          (new_pubsub False True ''ascii''))
       = Inr (Some \<lparr>mtype = ''subscribe'', pattern = None, channel = PStr ''news'',
                    data = PInt 1\<rparr>)"
  using acknowledgement_suppressed_iff_ignored
          [where env = quiet_env and ?r0.0 = "PStr ''subscribe''" and t = "''subscribe''"
             and key = "PStr ''news''" and d = "PInt 1" and rest = "[]" and ignore = True
             and s = "new_pubsub False True ''ascii''"]
        acknowledgement_suppressed_iff_ignored
          [where env = quiet_env and ?r0.0 = "PStr ''subscribe''" and t = "''subscribe''"
             and key = "PStr ''news''" and d = "PInt 1" and rest = "[]" and ignore = False
             and s = "(new_pubsub False True ''ascii'')\<lparr>ignore_subscribe_messages := True\<rparr>"]
        acknowledgement_suppressed_iff_ignored
          [where env = quiet_env and ?r0.0 = "PStr ''subscribe''" and t = "''subscribe''"
             and key = "PStr ''news''" and d = "PInt 1" and rest = "[]" and ignore = False
             and s = "new_pubsub False True ''ascii''"]
  by (simp add: quiet_env_simps py_nativestr_def new_pubsub_def)

text \<open>
  C8. In the cluster variant a reply that starts with the text \<^verbatim>\<open>pong\<close> records the
  clock in \<^verbatim>\<open>last_pong\<close> and yields no message; a reply whose first element is not
  one of the known message types is printed and yields no message, without an error.
\<close>

theorem cluster_pong_and_unknown_replies_dropped:
  "(r0 = PStr ''pong'' \<longrightarrow>
      cluster_handle_message env (r0 # rest) ignore s =
        (Inr None, (emit TimeTime s)\<lparr>last_pong := Some (clock env (trace s @ [TimeTime]))\<rparr>))
   \<and> (r0 \<noteq> PStr ''pong'' \<and> r0 \<notin> PStr ` known_types \<longrightarrow>
      cluster_handle_message env (r0 # rest) ignore s =
        (Inr None, emit (Print ''response not recegnized'') s))"
  by (auto simp add: cluster_handle_message_pong cluster_handle_message_drop known_types_def)

theorem cluster_pong_and_unknown_replies_dropped_witness:
  "cluster_handle_message quiet_env [PStr ''pong'', PStr ''''] False (new_pubsub True True ''ascii'')
     = (Inr None, (emit TimeTime (new_pubsub True True ''ascii''))\<lparr>last_pong := Some 1\<rparr>)
   \<and> cluster_handle_message quiet_env [PStr ''hello'', PInt 3] False (new_pubsub True True ''ascii'')
     = (Inr None, emit (Print ''response not recegnized'') (new_pubsub True True ''ascii''))"
  using cluster_pong_and_unknown_replies_dropped
          [where env = quiet_env and ?r0.0 = "PStr ''pong''" and rest = "[PStr '''']"
             and ignore = False and s = "new_pubsub True True ''ascii''"]
        cluster_pong_and_unknown_replies_dropped
          [where env = quiet_env and ?r0.0 = "PStr ''hello''" and rest = "[PInt 3]"
             and ignore = False and s = "new_pubsub True True ''ascii''"]
  by (simp add: quiet_env_simps new_pubsub_def known_types_def)

text \<open>
  C9. The cluster variant hands a reply to the dispatch of the base class only when its
  first element is the text \<^verbatim>\<open>message\<close> or \<^verbatim>\<open>subscribe\<close>. A reply of type
  \<^verbatim>\<open>pmessage\<close>, \<^verbatim>\<open>psubscribe\<close>, \<^verbatim>\<open>unsubscribe\<close> or
  \<^verbatim>\<open>punsubscribe\<close> is printed and dropped: no result, both mappings as before, and
  the print is the only call made, so no handler runs.
\<close>

theorem cluster_forwards_only_message_and_subscribe:
  "(r0 \<in> {PStr ''message'', PStr ''subscribe''} \<longrightarrow>
      cluster_handle_message env (r0 # rest) ignore s = handle_message env (r0 # rest) ignore s)
   \<and> ((\<exists>t \<in> {''pmessage'', ''psubscribe'', ''unsubscribe'', ''punsubscribe''}.
          r0 = PStr t \<or> r0 = PBytes t) \<longrightarrow>
      cluster_handle_message env (r0 # rest) ignore s =
        (Inr None, emit (Print ''response not recegnized'') s)
      \<and> channels (snd (cluster_handle_message env (r0 # rest) ignore s)) = channels s
      \<and> patterns (snd (cluster_handle_message env (r0 # rest) ignore s)) = patterns s
      \<and> trace (snd (cluster_handle_message env (r0 # rest) ignore s))
          = trace s @ [Print ''response not recegnized''])"
  by (auto simp add: cluster_handle_message_forward cluster_handle_message_drop emit_def)

theorem cluster_forwards_only_message_and_subscribe_witness:
  "cluster_handle_message quiet_env [PStr ''message'', PStr ''news'', PStr ''hello''] False
       ((new_pubsub True True ''ascii'')\<lparr>channels := [(PStr ''news'', None)]\<rparr>)
     = handle_message quiet_env [PStr ''message'', PStr ''news'', PStr ''hello''] False
       ((new_pubsub True True ''ascii'')\<lparr>channels := [(PStr ''news'', None)]\<rparr>)
   \<and> cluster_handle_message quiet_env
       [PStr ''pmessage'', PStr ''n*'', PStr ''news'', PStr ''hello''] False
       ((new_pubsub True True ''ascii'')\<lparr>patterns := [(PStr ''n*'', Some 3)]\<rparr>)
     = (Inr None, emit (Print ''response not recegnized'')
          ((new_pubsub True True ''ascii'')\<lparr>patterns := [(PStr ''n*'', Some 3)]\<rparr>))
   \<and> channels (snd (cluster_handle_message quiet_env
       [PStr ''unsubscribe'', PStr ''news'', PInt 0] False
       ((new_pubsub True True ''ascii'')\<lparr>channels := [(PStr ''news'', None)]\<rparr>)))
     = [(PStr ''news'', None)]"
  using cluster_forwards_only_message_and_subscribe
          [where env = quiet_env and ?r0.0 = "PStr ''message''"
             and rest = "[PStr ''news'', PStr ''hello'']" and ignore = False
             and s = "(new_pubsub True True ''ascii'')\<lparr>channels := [(PStr ''news'', None)]\<rparr>"]
        cluster_forwards_only_message_and_subscribe
          [where env = quiet_env and ?r0.0 = "PStr ''pmessage''"
             and rest = "[PStr ''n*'', PStr ''news'', PStr ''hello'']" and ignore = False
             and s = "(new_pubsub True True ''ascii'')\<lparr>patterns := [(PStr ''n*'', Some 3)]\<rparr>"]
        cluster_forwards_only_message_and_subscribe
          [where env = quiet_env and ?r0.0 = "PStr ''unsubscribe''"
             and rest = "[PStr ''news'', PInt 0]" and ignore = False
             and s = "(new_pubsub True True ''ascii'')\<lparr>channels := [(PStr ''news'', None)]\<rparr>"]
  by (simp add: emit_def)

section \<open>The retry primitive\<close>

lemma u_execute_returns:
  "command args s = (Inr v, s1) \<Longrightarrow> u_execute env conn command args s = (Inr v, s1)"
  by (simp add: u_execute_def)

lemma u_execute_cancelled:
  "command args s = (Inl CancelledError, s1) \<Longrightarrow>
   u_execute env conn command args s =
     (Inr None,
      if can_read_outcome env (trace s1 @ [CanRead conn])
      then emit (Disconnect conn) (emit (CanRead conn) s1)
      else emit (CanRead conn) s1)"
  by (simp add: u_execute_def Let_def emit_def)

lemma u_execute_timeout_no_retry:
  "command args s = (Inl TimeoutError, s1) \<Longrightarrow> \<not> retry_on_timeout env conn \<Longrightarrow>
   u_execute env conn command args s = (Inl TimeoutError, emit (Disconnect conn) s1)"
  by (simp add: u_execute_def Let_def)

lemma u_execute_reconnect:
  assumes "command args s = (Inl e, s1)"
    and "e = ConnectionError \<or> e = TimeoutError \<and> retry_on_timeout env conn"
  shows "u_execute env conn command args s =
     (let s3 = emit (Connect conn) (emit (Disconnect conn) s1)
      in case connect_outcome env (trace s3) of
           None \<Rightarrow> command args s3
         | Some e' \<Rightarrow>
             (Inl e', if is_Exception env e' then emit (ClearConnectCallbacks conn) s3 else s3))"
  using assms by (auto simp add: u_execute_def Let_def split: option.splits)

lemma u_execute_other:
  "command args s = (Inl e, s1) \<Longrightarrow> e \<noteq> CancelledError \<Longrightarrow> e \<noteq> ConnectionError \<Longrightarrow>
   e \<noteq> TimeoutError \<Longrightarrow> u_execute env conn command args s = (Inl e, s1)"
  by (simp add: u_execute_def)

lemma send_command_eq:
  "send_command env conn args s =
     ((case send_outcome env (trace s @ [SendCommand conn args]) of
         None \<Rightarrow> Inr None | Some e \<Rightarrow> Inl e),
      emit (SendCommand conn args) s)"
  by (simp add: send_command_def Let_def emit_def split: option.splits)

text \<open>
  C7. When the command run through \<^verbatim>\<open>_execute\<close> fails with a connection or timeout
  error: a timeout on a connection that does not retry timeouts is raised again after the
  disconnect, with no reconnect; otherwise the connection is disconnected and reconnected,
  and the result of \<^verbatim>\<open>_execute\<close> is that of one further call of the command,
  whatever it is (for \<^verbatim>\<open>send_command\<close>: two sends in all); a reconnect that fails
  clears the connect callbacks and its failure is raised.
\<close>

theorem execute_reconnects_and_retries_once:
  assumes "command args s = (Inl e, s1)" and "e = ConnectionError \<or> e = TimeoutError"
  shows "(e = TimeoutError \<and> \<not> retry_on_timeout env conn \<longrightarrow>
            u_execute env conn command args s = (Inl TimeoutError, emit (Disconnect conn) s1))
     \<and> (\<not> (e = TimeoutError \<and> \<not> retry_on_timeout env conn) \<longrightarrow>
          (let s3 = emit (Connect conn) (emit (Disconnect conn) s1)
           in case connect_outcome env (trace s3) of
                None \<Rightarrow> u_execute env conn command args s = command args s3
              | Some e' \<Rightarrow>
                  is_Exception env e' \<longrightarrow>
                  u_execute env conn command args s
                    = (Inl e', emit (ClearConnectCallbacks conn) s3)))
     \<and> (\<not> (e = TimeoutError \<and> \<not> retry_on_timeout env conn)
          \<and> command = send_command env conn
          \<and> connect_outcome env (trace s @ [SendCommand conn args, Disconnect conn, Connect conn])
              = None \<longrightarrow>
          u_execute env conn command args s =
            ((case send_outcome env
                    (trace s @ [SendCommand conn args, Disconnect conn, Connect conn,
                                SendCommand conn args]) of
                None \<Rightarrow> Inr None | Some e2 \<Rightarrow> Inl e2),
             s\<lparr>trace := trace s @ [SendCommand conn args, Disconnect conn, Connect conn,
                                   SendCommand conn args]\<rparr>))"
proof (intro conjI impI)
  assume "e = TimeoutError \<and> \<not> retry_on_timeout env conn"
  with assms(1) show "u_execute env conn command args s = (Inl TimeoutError, emit (Disconnect conn) s1)"
    by (simp add: u_execute_timeout_no_retry)
next
  assume "\<not> (e = TimeoutError \<and> \<not> retry_on_timeout env conn)"
  with assms have "e = ConnectionError \<or> e = TimeoutError \<and> retry_on_timeout env conn"
    by blast
  from u_execute_reconnect
         [where command = command and args = args and s = s and env = env and conn = conn,
          OF assms(1) this]
  show "let s3 = emit (Connect conn) (emit (Disconnect conn) s1)
        in case connect_outcome env (trace s3) of
             None \<Rightarrow> u_execute env conn command args s = command args s3
           | Some e' \<Rightarrow>
               is_Exception env e' \<longrightarrow>
               u_execute env conn command args s
                 = (Inl e', emit (ClearConnectCallbacks conn) s3)"
    by (simp add: Let_def split: option.splits)
next
  assume a: "\<not> (e = TimeoutError \<and> \<not> retry_on_timeout env conn)
          \<and> command = send_command env conn
          \<and> connect_outcome env (trace s @ [SendCommand conn args, Disconnect conn, Connect conn])
              = None"
  with assms have r: "e = ConnectionError \<or> e = TimeoutError \<and> retry_on_timeout env conn"
    by blast
  from a assms(1) have s1: "s1 = emit (SendCommand conn args) s"
    by (simp add: send_command_eq)
  from u_execute_reconnect
         [where command = command and args = args and s = s and env = env and conn = conn,
          OF assms(1) r] a s1
  show "u_execute env conn command args s =
            ((case send_outcome env
                    (trace s @ [SendCommand conn args, Disconnect conn, Connect conn,
                                SendCommand conn args]) of
                None \<Rightarrow> Inr None | Some e2 \<Rightarrow> Inl e2),
             s\<lparr>trace := trace s @ [SendCommand conn args, Disconnect conn, Connect conn,
                                   SendCommand conn args]\<rparr>)"
    by (simp add: Let_def emit_def send_command_eq)
qed


theorem execute_reconnects_and_retries_once_witness:
  "u_execute (script_env (\<lambda>h. Some ConnectionError) (\<lambda>h. None) False False) 1
       (send_command (script_env (\<lambda>h. Some ConnectionError) (\<lambda>h. None) False False) 1)
       [PStr ''SUBSCRIBE'', PStr ''a''] ((new_pubsub False True ''ascii'')\<lparr>connection := Some 1\<rparr>)
     = (Inl ConnectionError,
        (new_pubsub False True ''ascii'')
          \<lparr>connection := Some 1,
           trace := [SendCommand 1 [PStr ''SUBSCRIBE'', PStr ''a''], Disconnect 1, Connect 1,
                     SendCommand 1 [PStr ''SUBSCRIBE'', PStr ''a'']]\<rparr>)
   \<and> u_execute (script_env (\<lambda>h. Some TimeoutError) (\<lambda>h. None) False False) 1
       (send_command (script_env (\<lambda>h. Some TimeoutError) (\<lambda>h. None) False False) 1)
       [PStr ''SUBSCRIBE'', PStr ''a''] ((new_pubsub False True ''ascii'')\<lparr>connection := Some 1\<rparr>)
     = (Inl TimeoutError,
        (new_pubsub False True ''ascii'')
          \<lparr>connection := Some 1,
           trace := [SendCommand 1 [PStr ''SUBSCRIBE'', PStr ''a''], Disconnect 1]\<rparr>)
   \<and> u_execute (script_env (\<lambda>h. Some TimeoutError) (\<lambda>h. Some (Exc ''OSError'')) False True) 1
       (send_command
          (script_env (\<lambda>h. Some TimeoutError) (\<lambda>h. Some (Exc ''OSError'')) False True) 1)
       [PStr ''SUBSCRIBE'', PStr ''a''] ((new_pubsub False True ''ascii'')\<lparr>connection := Some 1\<rparr>)
     = (Inl (Exc ''OSError''),
        (new_pubsub False True ''ascii'')
          \<lparr>connection := Some 1,
           trace := [SendCommand 1 [PStr ''SUBSCRIBE'', PStr ''a''], Disconnect 1, Connect 1,
                     ClearConnectCallbacks 1]\<rparr>)"
  using execute_reconnects_and_retries_once
          [where env = "script_env (\<lambda>h. Some ConnectionError) (\<lambda>h. None) False False"
             and conn = 1 and e = ConnectionError and args = "[PStr ''SUBSCRIBE'', PStr ''a'']"
             and command = "send_command (script_env (\<lambda>h. Some ConnectionError) (\<lambda>h. None) False False) 1"
             and s = "(new_pubsub False True ''ascii'')\<lparr>connection := Some 1\<rparr>"
             and ?s1.0 = "emit (SendCommand 1 [PStr ''SUBSCRIBE'', PStr ''a''])
                           ((new_pubsub False True ''ascii'')\<lparr>connection := Some 1\<rparr>)"]
        execute_reconnects_and_retries_once
          [where env = "script_env (\<lambda>h. Some TimeoutError) (\<lambda>h. None) False False"
             and conn = 1 and e = TimeoutError and args = "[PStr ''SUBSCRIBE'', PStr ''a'']"
             and command = "send_command (script_env (\<lambda>h. Some TimeoutError) (\<lambda>h. None) False False) 1"
             and s = "(new_pubsub False True ''ascii'')\<lparr>connection := Some 1\<rparr>"
             and ?s1.0 = "emit (SendCommand 1 [PStr ''SUBSCRIBE'', PStr ''a''])
                           ((new_pubsub False True ''ascii'')\<lparr>connection := Some 1\<rparr>)"]
        execute_reconnects_and_retries_once
          [where env = "script_env (\<lambda>h. Some TimeoutError) (\<lambda>h. Some (Exc ''OSError'')) False True"
             and conn = 1 and e = TimeoutError and args = "[PStr ''SUBSCRIBE'', PStr ''a'']"
             and command = "send_command
               (script_env (\<lambda>h. Some TimeoutError) (\<lambda>h. Some (Exc ''OSError'')) False True) 1"
             and s = "(new_pubsub False True ''ascii'')\<lparr>connection := Some 1\<rparr>"
             and ?s1.0 = "emit (SendCommand 1 [PStr ''SUBSCRIBE'', PStr ''a''])
                           ((new_pubsub False True ''ascii'')\<lparr>connection := Some 1\<rparr>)"]
  by (simp add: send_command_eq script_env_def emit_def new_pubsub_def)

section \<open>What command execution leaves alone\<close>

lemma keeps_registry_refl: "keeps_registry s s"
  by (simp add: keeps_registry_def)

lemma keeps_registry_trans:
  assumes "keeps_registry s s1" and "keeps_registry s1 s2"
  shows "keeps_registry s s2"
proof -
  from assms(1) have l: "length (trace s) \<le> length (trace s1)"
    unfolding keeps_registry_def by (metis length_take min.cobounded2 min.commute)
  from assms(2) have "take (length (trace s)) (trace s2) = take (length (trace s)) (trace s1)"
    unfolding keeps_registry_def using l by (metis min.absorb1 take_take)
  with assms show ?thesis by (simp add: keeps_registry_def)
qed

lemma keeps_registry_emit: "keeps_registry s (emit ev s)"
  by (simp add: keeps_registry_def emit_def)

lemma keeps_registry_trace:
  "keeps_registry s s' \<Longrightarrow> trace s' = trace s @ new_events s s'"
  by (metis append_take_drop_id keeps_registry_def new_events_def)

lemma new_events_trans:
  assumes "keeps_registry s s1" and "keeps_registry s1 s2"
  shows "new_events s s2 = new_events s s1 @ new_events s1 s2"
proof -
  have "trace s2 = trace s @ (new_events s s1 @ new_events s1 s2)"
    using assms keeps_registry_trace by (metis append.assoc)
  then have "drop (length (trace s)) (trace s2) = new_events s s1 @ new_events s1 s2"
    by (metis append_eq_conv_conj)
  then show ?thesis by (simp add: new_events_def)
qed

lemma transmitted_append:
  "transmitted_from env cmd h (xs @ ys) \<longleftrightarrow>
     transmitted_from env cmd h xs \<or> transmitted_from env cmd (h @ xs) ys"
  by (induction xs arbitrary: h) auto

lemma u_execute_send_eq:
  "u_execute env c (send_command env c) args s =
     (let h1 = trace s @ [SendCommand c args]
      in case send_outcome env h1 of
           None \<Rightarrow> (Inr None, s\<lparr>trace := h1\<rparr>)
         | Some e \<Rightarrow>
             if e = CancelledError then
               (Inr None,
                s\<lparr>trace := h1 @ CanRead c #
                   (if can_read_outcome env (h1 @ [CanRead c]) then [Disconnect c] else [])\<rparr>)
             else if e = ConnectionError \<or> e = TimeoutError then
               (if \<not> retry_on_timeout env c \<and> e = TimeoutError
                then (Inl e, s\<lparr>trace := h1 @ [Disconnect c]\<rparr>)
                else
                  (case connect_outcome env (h1 @ [Disconnect c, Connect c]) of
                     Some e' \<Rightarrow>
                       (Inl e',
                        s\<lparr>trace := h1 @ Disconnect c # Connect c #
                           (if is_Exception env e' then [ClearConnectCallbacks c] else [])\<rparr>)
                   | None \<Rightarrow>
                       (case send_outcome env
                               (h1 @ [Disconnect c, Connect c, SendCommand c args]) of
                          None \<Rightarrow>
                            (Inr None,
                             s\<lparr>trace := h1 @ [Disconnect c, Connect c, SendCommand c args]\<rparr>)
                        | Some e2 \<Rightarrow>
                            (Inl e2,
                             s\<lparr>trace := h1 @ [Disconnect c, Connect c, SendCommand c args]\<rparr>))))
             else (Inl e, s\<lparr>trace := h1\<rparr>))"
  by (simp add: u_execute_def send_command_def emit_def Let_def split: option.splits)

lemma u_execute_send_keeps:
  "u_execute env c (send_command env c) args s = (r, s') \<Longrightarrow> keeps_registry s s'"
  by (auto simp add: u_execute_send_eq Let_def keeps_registry_def split: option.splits if_splits)

lemma u_execute_send_connection:
  "u_execute env c (send_command env c) args s = (r, s') \<Longrightarrow>
   connection s' = connection s \<and> last_pong s' = last_pong s
     \<and> reconnect_closed_coro s' = reconnect_closed_coro s"
  by (auto simp add: u_execute_send_eq Let_def split: option.splits if_splits)

lemma u_execute_send_transmitted:
  assumes "u_execute env c (send_command env c) args s = (Inr v, s')"
    and "\<forall>h. send_outcome env h \<noteq> Some CancelledError"
  shows "transmitted_from env args (trace s) (new_events s s')"
  using assms
  by (auto simp add: u_execute_send_eq Let_def new_events_def split: option.splits if_splits)

lemma u_execute_send_counts:
  assumes "u_execute env c (send_command env c) args s = (r, s')"
  shows "attempts (trace s') = attempts (trace s)"
    and "sleeps (trace s') = sleeps (trace s)"
    and "reinitializations (trace s') = reinitializations (trace s)"
    and "acquisitions (trace s') = acquisitions (trace s)"
  using assms
  by (auto simp add: u_execute_send_eq Let_def attempts_def sleeps_def reinitializations_def
      acquisitions_def split: option.splits if_splits)


lemma keeps_registry_transmitted:
  assumes "keeps_registry s s1" and "keeps_registry s1 s2"
    and "transmitted_from env cmd (trace s1) (new_events s1 s2)"
  shows "transmitted_from env cmd (trace s) (new_events s s2)"
proof -
  have "trace s1 = trace s @ new_events s s1"
    using assms(1) by (rule keeps_registry_trace)
  with assms show ?thesis
    by (simp add: new_events_trans transmitted_append)
qed

lemma execute_command_unfold:
  "execute_command env args s =
     (let s2 = (case connection s of
                  None \<Rightarrow>
                    emit (RegisterConnectCallback (get_connection_result env (trace s @ [GetConnection []])))
                      ((emit (GetConnection []) s)
                         \<lparr>connection := Some (get_connection_result env (trace s @ [GetConnection []]))\<rparr>)
                | Some c \<Rightarrow> s);
          c = (case connection s of
                 None \<Rightarrow> get_connection_result env (trace s @ [GetConnection []])
               | Some c \<Rightarrow> c)
      in case u_execute env c (send_command env c) args s2 of
           (Inl e, s3) \<Rightarrow> (Inl e, s3)
         | (Inr v, s3) \<Rightarrow> (Inr None, s3))"
  by (simp add: execute_command_def Let_def emit_def split: option.splits)

lemma execute_command_keeps:
  assumes "execute_command env args s = (r, s')"
  shows "keeps_registry s s'"
proof -
  define s2 where "s2 = (case connection s of
                  None \<Rightarrow>
                    emit (RegisterConnectCallback (get_connection_result env (trace s @ [GetConnection []])))
                      ((emit (GetConnection []) s)
                         \<lparr>connection := Some (get_connection_result env (trace s @ [GetConnection []]))\<rparr>)
                | Some c \<Rightarrow> s)"
  define c where "c = (case connection s of
                 None \<Rightarrow> get_connection_result env (trace s @ [GetConnection []])
               | Some c \<Rightarrow> c)"
  have k: "keeps_registry s s2"
    by (simp add: s2_def keeps_registry_def emit_def split: option.splits)
  obtain r3 s3 where u: "u_execute env c (send_command env c) args s2 = (r3, s3)"
    by (cases "u_execute env c (send_command env c) args s2")
  with assms have "s' = s3"
    by (auto simp add: execute_command_unfold Let_def s2_def c_def split: sum.splits)
  with u k show ?thesis
    using keeps_registry_trans u_execute_send_keeps by blast
qed

lemma execute_command_transmitted:
  assumes "execute_command env args s = (Inr v, s')"
    and "\<forall>h. send_outcome env h \<noteq> Some CancelledError"
  shows "transmitted_from env args (trace s) (new_events s s')"
proof -
  define s2 where "s2 = (case connection s of
                  None \<Rightarrow>
                    emit (RegisterConnectCallback (get_connection_result env (trace s @ [GetConnection []])))
                      ((emit (GetConnection []) s)
                         \<lparr>connection := Some (get_connection_result env (trace s @ [GetConnection []]))\<rparr>)
                | Some c \<Rightarrow> s)"
  define c where "c = (case connection s of
                 None \<Rightarrow> get_connection_result env (trace s @ [GetConnection []])
               | Some c \<Rightarrow> c)"
  have k: "keeps_registry s s2"
    by (simp add: s2_def keeps_registry_def emit_def split: option.splits)
  obtain r3 s3 where u: "u_execute env c (send_command env c) args s2 = (r3, s3)"
    by (cases "u_execute env c (send_command env c) args s2")
  with assms(1) have "s' = s3" and "\<exists>w. r3 = Inr w"
    by (auto simp add: execute_command_unfold Let_def s2_def c_def split: sum.splits)
  then obtain w where u': "u_execute env c (send_command env c) args s2 = (Inr w, s')"
    using u by blast
  from keeps_registry_transmitted [OF k u_execute_send_keeps [OF u']
         u_execute_send_transmitted [OF u' assms(2)]]
  show ?thesis .
qed

lemma execute_command_result:
  "execute_command env args s = (Inr v, s') \<Longrightarrow> v = None"
  by (auto simp add: execute_command_unfold Let_def split: sum.splits prod.splits)

lemma cluster_acquire_keeps:
  "cluster_acquire env args s = (r, s') \<Longrightarrow> keeps_registry s s'"
  by (auto simp add: cluster_acquire_def Let_def keeps_registry_def emit_def
      split: option.splits sum.splits if_splits)

lemma cluster_acquire_untransmitted:
  "cluster_acquire env args s = (r, s') \<Longrightarrow> \<not> transmitted_from env cmd h (new_events s s')"
  by (auto simp add: cluster_acquire_def Let_def new_events_def emit_def
      split: option.splits sum.splits if_splits)

lemma cluster_backoff_keeps: "keeps_registry s (cluster_backoff n s)"
  by (simp add: cluster_backoff_def keeps_registry_def emit_def)

lemma cluster_execute_command_frame:
  "cluster_execute_command env args tries s = (r, s') \<Longrightarrow>
   keeps_registry s s' \<and>
   (\<forall>v. r = Inr v \<longrightarrow>
      v = None \<and>
      ((\<forall>h. send_outcome env h \<noteq> Some CancelledError) \<longrightarrow>
         transmitted_from env args (trace s) (new_events s s')))"
proof (induction env args tries s arbitrary: r s' rule: cluster_execute_command.induct)
  case (1 env args tries s)
  obtain ra s1 where a: "cluster_acquire env args s = (ra, s1)"
    by (cases "cluster_acquire env args s")
  have k1: "keeps_registry s s1" using a by (rule cluster_acquire_keeps)
  show ?case
  proof (cases ra)
    case (Inl e)
    with a "1.prems" have "s' = s1" and "r = Inl e"
      by (simp_all add: cluster_execute_command.simps [of env args tries s])
    with k1 show ?thesis by simp
  next
    case (Inr c)
    obtain ru s2 where u: "u_execute env c (send_command env c) args s1 = (ru, s2)"
      by (cases "u_execute env c (send_command env c) args s1")
    have k12: "keeps_registry s1 s2" using u by (rule u_execute_send_keeps)
    have k2: "keeps_registry s s2"
      using k1 k12 by (rule keeps_registry_trans)
    show ?thesis
    proof (cases ru)
      case (Inr v)
      with a u \<open>ra = Inr c\<close> "1.prems" have e: "s' = s2" "r = Inr None"
        by (simp_all add: cluster_execute_command.simps [of env args tries s])
      have "transmitted_from env args (trace s) (new_events s s2)"
        if "\<forall>h. send_outcome env h \<noteq> Some CancelledError"
        using keeps_registry_transmitted [OF k1 k12] u_execute_send_transmitted u Inr that
        by blast
      with k2 e show ?thesis by simp
    next
      case (Inl e)
      show ?thesis
      proof (cases "\<not> is_Exception env e \<or> tries > 25")
        case True
        with a u \<open>ra = Inr c\<close> Inl "1.prems"
        have "s' = s2 \<or> s' = emit (Print ''too many pubsub retries, giving up'') s2"
          and "r = Inl e"
          by (auto simp add: cluster_execute_command.simps [of env args tries s] split: if_splits)
        with k2 show ?thesis
          using keeps_registry_emit keeps_registry_trans by blast
      next
        case False
        with a u \<open>ra = Inr c\<close> Inl "1.prems"
        have rec: "cluster_execute_command env args (tries + 1) (cluster_backoff (tries + 1) s2) = (r, s')"
          by (simp add: cluster_execute_command.simps [of env args tries s])
        from False have c1: "\<not> \<not> is_Exception env e" and c2: "\<not> 25 < tries"
          by simp_all
        note ih = "1.IH" [OF a [symmetric] \<open>ra = Inr c\<close> u [symmetric] Inl c1 c2 rec]
        have kb: "keeps_registry s (cluster_backoff (tries + 1) s2)"
          using k2 cluster_backoff_keeps by (rule keeps_registry_trans)
        have "keeps_registry s s'"
          using kb ih by (blast intro: keeps_registry_trans)
        moreover have "transmitted_from env args (trace s) (new_events s s')"
          if "r = Inr v" "\<forall>h. send_outcome env h \<noteq> Some CancelledError" for v
          using keeps_registry_transmitted [OF kb] ih that by blast
        ultimately show ?thesis using ih by blast
      qed
    qed
  qed
qed

lemma self_execute_command_frame:
  assumes "self_execute_command env args s = (r, s')"
  shows "keeps_registry s s'"
    and "r = Inr v \<Longrightarrow> v = None"
    and "r = Inr v \<Longrightarrow> \<forall>h. send_outcome env h \<noteq> Some CancelledError \<Longrightarrow>
           transmitted_from env args (trace s) (new_events s s')"
  using assms cluster_execute_command_frame [of env args 0 s r s']
    execute_command_keeps [of env args s r s'] execute_command_result [of env args s v s']
    execute_command_transmitted [of env args s v s']
  by (auto simp add: self_execute_command_def split: if_splits)

section \<open>The bounded retry of the cluster variant\<close>

lemma cluster_acquire_ok:
  "connection s \<noteq> None \<or> 2 \<le> length args \<Longrightarrow> \<exists>c s1. cluster_acquire env args s = (Inr c, s1)"
  by (auto simp add: cluster_acquire_def Let_def emit_def index_def split: option.splits)

lemma cluster_acquire_counts:
  assumes "cluster_acquire env args s = (Inr c, s1)"
  shows "attempts (trace s1) = attempts (trace s) + 1"
    and "sleeps (trace s1) = sleeps (trace s)"
    and "reinitializations (trace s1) = reinitializations (trace s)"
    and "acquisitions (trace s1) =
           acquisitions (trace s) + (if connection s = None then 1 else 0)"
  using assms
  by (auto simp add: cluster_acquire_def Let_def emit_def attempts_def sleeps_def
      reinitializations_def acquisitions_def split: option.splits sum.splits if_splits)

lemma cluster_backoff_counts:
  "attempts (trace (cluster_backoff n s)) = attempts (trace s)"
  "sleeps (trace (cluster_backoff n s)) = sleeps (trace s) @ [n + 1]"
  "reinitializations (trace (cluster_backoff n s)) = reinitializations (trace s) + 1"
  "acquisitions (trace (cluster_backoff n s)) = acquisitions (trace s)"
  "connection (cluster_backoff n s) = None"
  by (simp_all add: cluster_backoff_def emit_def attempts_def sleeps_def
      reinitializations_def acquisitions_def)

lemma emit_print_counts:
  "attempts (trace (emit (Print m) s)) = attempts (trace s)"
  "sleeps (trace (emit (Print m) s)) = sleeps (trace s)"
  "reinitializations (trace (emit (Print m) s)) = reinitializations (trace s)"
  "acquisitions (trace (emit (Print m) s)) = acquisitions (trace s)"
  by (simp_all add: emit_def attempts_def sleeps_def reinitializations_def acquisitions_def)

lemma cluster_gives_up:
  assumes fails: "\<forall>c s. \<exists>e s'. u_execute env c (send_command env c) args s = (Inl e, s')
                      \<and> is_Exception env e"
    and key: "2 \<le> length args"
    and n: "n = nat (26 - tries)" and le: "tries \<le> 26"
  shows "\<exists>e c s_last s_fail.
      cluster_execute_command env args tries s
        = (Inl e, emit (Print ''too many pubsub retries, giving up'') s_fail)
    \<and> u_execute env c (send_command env c) args s_last = (Inl e, s_fail)
    \<and> is_Exception env e
    \<and> attempts (trace s_last) = attempts (trace s) + nat (27 - tries)
    \<and> attempts (trace s_fail) = attempts (trace s) + nat (27 - tries)
    \<and> sleeps (trace s_fail) = sleeps (trace s) @ map (\<lambda>k. k + 1) [tries + 1..26]
    \<and> reinitializations (trace s_fail) = reinitializations (trace s) + nat (26 - tries)
    \<and> acquisitions (trace s_fail)
        = acquisitions (trace s) + nat (26 - tries) + (if connection s = None then 1 else 0)"
  using n le
proof (induction n arbitrary: tries s)
  case 0
  then have t: "tries = 26" by simp
  obtain c s1 where a: "cluster_acquire env args s = (Inr c, s1)"
    using cluster_acquire_ok key by blast
  from fails obtain e s2 where u: "u_execute env c (send_command env c) args s1 = (Inl e, s2)"
    and e: "is_Exception env e" by blast
  from a u e t have "cluster_execute_command env args tries s
        = (Inl e, emit (Print ''too many pubsub retries, giving up'') s2)"
    by (simp add: cluster_execute_command.simps [of env args 26 s])
  moreover note u e
  moreover have "attempts (trace s1) = attempts (trace s) + nat (27 - tries)"
    using cluster_acquire_counts(1) [OF a] t by simp
  moreover have "attempts (trace s2) = attempts (trace s) + nat (27 - tries)"
    using cluster_acquire_counts(1) [OF a] u_execute_send_counts(1) [OF u] t by simp
  moreover have "sleeps (trace s2) = sleeps (trace s) @ map (\<lambda>k. k + 1) [tries + 1..26]"
    using cluster_acquire_counts(2) [OF a] u_execute_send_counts(2) [OF u] t by simp
  moreover have "reinitializations (trace s2) = reinitializations (trace s) + nat (26 - tries)"
    using cluster_acquire_counts(3) [OF a] u_execute_send_counts(3) [OF u] t by simp
  moreover have "acquisitions (trace s2)
        = acquisitions (trace s) + nat (26 - tries) + (if connection s = None then 1 else 0)"
    using cluster_acquire_counts(4) [OF a] u_execute_send_counts(4) [OF u] t by simp
  ultimately show ?case by blast
next
  case (Suc n)
  then have t: "tries \<le> 25" and n': "n = nat (26 - (tries + 1))" and le': "tries + 1 \<le> 26"
    by simp_all
  obtain c s1 where a: "cluster_acquire env args s = (Inr c, s1)"
    using cluster_acquire_ok key by blast
  from fails obtain e s2 where u: "u_execute env c (send_command env c) args s1 = (Inl e, s2)"
    and e: "is_Exception env e" by blast
  define sb where "sb = cluster_backoff (tries + 1) s2"
  from a u e t have rec: "cluster_execute_command env args tries s
        = cluster_execute_command env args (tries + 1) sb"
    by (simp add: cluster_execute_command.simps [of env args tries s] sb_def)
  from Suc.IH [OF n' le', of sb] obtain e' c' s_last s_fail where
    r: "cluster_execute_command env args (tries + 1) sb
        = (Inl e', emit (Print ''too many pubsub retries, giving up'') s_fail)"
    and u': "u_execute env c' (send_command env c') args s_last = (Inl e', s_fail)"
    and e': "is_Exception env e'"
    and c1: "attempts (trace s_last) = attempts (trace sb) + nat (27 - (tries + 1))"
    and c2: "attempts (trace s_fail) = attempts (trace sb) + nat (27 - (tries + 1))"
    and c3: "sleeps (trace s_fail) = sleeps (trace sb) @ map (\<lambda>k. k + 1) [tries + 1 + 1..26]"
    and c4: "reinitializations (trace s_fail)
               = reinitializations (trace sb) + nat (26 - (tries + 1))"
    and c5: "acquisitions (trace s_fail)
        = acquisitions (trace sb) + nat (26 - (tries + 1))
          + (if connection sb = None then 1 else 0)"
    by blast
  have b1: "attempts (trace sb) = attempts (trace s) + 1"
    using cluster_acquire_counts(1) [OF a] u_execute_send_counts(1) [OF u]
    by (simp add: sb_def cluster_backoff_counts)
  have b2: "sleeps (trace sb) = sleeps (trace s) @ [tries + 1 + 1]"
    using cluster_acquire_counts(2) [OF a] u_execute_send_counts(2) [OF u]
    by (simp add: sb_def cluster_backoff_counts)
  have b3: "reinitializations (trace sb) = reinitializations (trace s) + 1"
    using cluster_acquire_counts(3) [OF a] u_execute_send_counts(3) [OF u]
    by (simp add: sb_def cluster_backoff_counts)
  have b4: "acquisitions (trace sb)
              = acquisitions (trace s) + (if connection s = None then 1 else 0)"
    using cluster_acquire_counts(4) [OF a] u_execute_send_counts(4) [OF u]
    by (simp add: sb_def cluster_backoff_counts)
  have b5: "connection sb = None"
    by (simp add: sb_def cluster_backoff_counts)
  have up: "[tries + 1..26] = (tries + 1) # [tries + 1 + 1..26]"
    using t by (simp add: upto_rec1)
  from rec r have "cluster_execute_command env args tries s
        = (Inl e', emit (Print ''too many pubsub retries, giving up'') s_fail)"
    by simp
  moreover note u' e'
  moreover from c1 b1 t have "attempts (trace s_last) = attempts (trace s) + nat (27 - tries)"
    by simp
  moreover from c2 b1 t have "attempts (trace s_fail) = attempts (trace s) + nat (27 - tries)"
    by simp
  moreover from c3 b2 up
  have "sleeps (trace s_fail) = sleeps (trace s) @ map (\<lambda>k. k + 1) [tries + 1..26]"
    by simp
  moreover from c4 b3 t
  have "reinitializations (trace s_fail) = reinitializations (trace s) + nat (26 - tries)"
    by simp
  moreover from c5 b4 b5 t
  have "acquisitions (trace s_fail)
        = acquisitions (trace s) + nat (26 - tries) + (if connection s = None then 1 else 0)"
    by simp
  ultimately show ?case by blast
qed

lemma cluster_gives_up_counts:
  assumes "\<forall>c s. \<exists>e s'. u_execute env c (send_command env c) args s = (Inl e, s')
                      \<and> is_Exception env e"
    and "2 \<le> length args"
  shows "attempts (trace (snd (cluster_execute_command env args 0 s)))
           = attempts (trace s) + 27"
    and "sleeps (trace (snd (cluster_execute_command env args 0 s)))
           = sleeps (trace s) @ map (\<lambda>k. k + 1) [1..26]"
    and "reinitializations (trace (snd (cluster_execute_command env args 0 s)))
           = reinitializations (trace s) + 26"
    and "acquisitions (trace (snd (cluster_execute_command env args 0 s)))
           = acquisitions (trace s) + 26 + (if connection s = None then 1 else 0)"
  using cluster_gives_up [OF assms, of 26 0 s]
  by (auto simp add: emit_print_counts)

lemma flaky_env_fails:
  "\<forall>c s. \<exists>e s'. u_execute flaky_env c (send_command flaky_env c)
          [PStr ''SUBSCRIBE'', PStr ''news''] s = (Inl e, s') \<and> is_Exception flaky_env e"
  by (simp add: u_execute_send_eq Let_def flaky_env_def script_env_def)

lemma flaky_env_last:
  assumes "u_execute flaky_env c (send_command flaky_env c) args s = (Inl e, s')"
    and "attempts (trace s) = 27"
  shows "e = Exc ''last''"
  using assms
  by (simp add: u_execute_send_eq Let_def flaky_env_def script_env_def attempts_def)

lemma backoff_delays:
  "map (\<lambda>k. k + 1) [1..26] = [2::int,3,4,5,6,7,8,9,10,11,12,13,14,15,16,17,18,19,20,21,22,23,24,25,26,27]"
  by code_simp

text \<open>
  C1, amended. In the cluster variant, for a command that names a key: when
  \<^verbatim>\<open>_execute\<close> raises an exception in every attempt, \<^verbatim>\<open>execute_command\<close>
  makes exactly 27 attempts (26 retries) and then raises what the 27th attempt raised,
  after printing that it gives up. Before the retries it has slept 2, 3, ..., 27 time
  units (one more than the number of attempts made so far), incremented the
  reinitialisation counter 26 times and taken 26 new connections, one per retry, the held
  connection having been set to \<^verbatim>\<open>None\<close> each time.
\<close>

theorem cluster_retry_gives_up:
  assumes "\<forall>c s. \<exists>e s'. u_execute env c (send_command env c) args s = (Inl e, s')
                      \<and> is_Exception env e"
    and "2 \<le> length args"
  shows "\<exists>e c s_last s_fail.
      cluster_execute_command env args 0 s
        = (Inl e, emit (Print ''too many pubsub retries, giving up'') s_fail)
    \<and> u_execute env c (send_command env c) args s_last = (Inl e, s_fail)
    \<and> attempts (trace s_last) = attempts (trace s) + 27
    \<and> attempts (trace s_fail) = attempts (trace s) + 27
    \<and> sleeps (trace s_fail) = sleeps (trace s) @ map (\<lambda>k. k + 1) [1..26]
    \<and> reinitializations (trace s_fail) = reinitializations (trace s) + 26
    \<and> acquisitions (trace s_fail)
        = acquisitions (trace s) + 26 + (if connection s = None then 1 else 0)"
proof -
  have "26 = nat (26 - 0)" and "(0::int) \<le> 26" by simp_all
  from cluster_gives_up [OF assms this, of s] obtain e c s_last s_fail where
    "cluster_execute_command env args 0 s
        = (Inl e, emit (Print ''too many pubsub retries, giving up'') s_fail)"
    "u_execute env c (send_command env c) args s_last = (Inl e, s_fail)"
    "attempts (trace s_last) = attempts (trace s) + nat (27 - 0)"
    "attempts (trace s_fail) = attempts (trace s) + nat (27 - 0)"
    "sleeps (trace s_fail) = sleeps (trace s) @ map (\<lambda>k. k + 1) [0 + 1..26]"
    "reinitializations (trace s_fail) = reinitializations (trace s) + nat (26 - 0)"
    "acquisitions (trace s_fail)
        = acquisitions (trace s) + nat (26 - 0) + (if connection s = None then 1 else 0)"
    by blast
  then have "cluster_execute_command env args 0 s
        = (Inl e, emit (Print ''too many pubsub retries, giving up'') s_fail)
    \<and> u_execute env c (send_command env c) args s_last = (Inl e, s_fail)
    \<and> attempts (trace s_last) = attempts (trace s) + 27
    \<and> attempts (trace s_fail) = attempts (trace s) + 27
    \<and> sleeps (trace s_fail) = sleeps (trace s) @ map (\<lambda>k. k + 1) [1..26]
    \<and> reinitializations (trace s_fail) = reinitializations (trace s) + 26
    \<and> acquisitions (trace s_fail)
        = acquisitions (trace s) + 26 + (if connection s = None then 1 else 0)"
    by simp
  then show ?thesis by blast
qed

text \<open>
  The claim as stated (25 retries, no 26th attempt) fails: when every send raises a
  connection error, 27 attempts are made and the counter is incremented 26 times.
\<close>

theorem cluster_retry_gives_up_counterexample:
  "attempts (trace (snd (cluster_execute_command
       (const_env (Some ConnectionError) None False False)
       [PStr ''SUBSCRIBE'', PStr ''news''] 0 (new_pubsub True True ''ascii'')))) = 27
   \<and> reinitializations (trace (snd (cluster_execute_command
       (const_env (Some ConnectionError) None False False)
       [PStr ''SUBSCRIBE'', PStr ''news''] 0 (new_pubsub True True ''ascii'')))) = 26"
proof -
  have "\<forall>c s. \<exists>e s'. u_execute (const_env (Some ConnectionError) None False False) c
          (send_command (const_env (Some ConnectionError) None False False) c)
          [PStr ''SUBSCRIBE'', PStr ''news''] s = (Inl e, s')
          \<and> is_Exception (const_env (Some ConnectionError) None False False) e"
    by (simp add: u_execute_send_eq Let_def const_env_def script_env_def)
  from cluster_gives_up_counts(1,3) [OF this, of "new_pubsub True True ''ascii''"]
  show ?thesis
    by (simp add: new_pubsub_def attempts_def reinitializations_def)
qed

theorem cluster_retry_gives_up_witness:
  "fst (cluster_execute_command flaky_env [PStr ''SUBSCRIBE'', PStr ''news''] 0
          (new_pubsub True True ''ascii'')) = Inl (Exc ''last'')
   \<and> attempts (trace (snd (cluster_execute_command flaky_env
          [PStr ''SUBSCRIBE'', PStr ''news''] 0 (new_pubsub True True ''ascii'')))) = 27
   \<and> sleeps (trace (snd (cluster_execute_command flaky_env
          [PStr ''SUBSCRIBE'', PStr ''news''] 0 (new_pubsub True True ''ascii''))))
       = map (\<lambda>k. k + 1) [1..26]
   \<and> reinitializations (trace (snd (cluster_execute_command flaky_env
          [PStr ''SUBSCRIBE'', PStr ''news''] 0 (new_pubsub True True ''ascii'')))) = 26
   \<and> acquisitions (trace (snd (cluster_execute_command flaky_env
          [PStr ''SUBSCRIBE'', PStr ''news''] 0 (new_pubsub True True ''ascii'')))) = 27"
proof -
  have k: "(2::nat) \<le> length [PStr ''SUBSCRIBE'', PStr ''news'']" by simp
  have z: "attempts (trace (new_pubsub True True ''ascii'')) = 0"
    "sleeps (trace (new_pubsub True True ''ascii'')) = []"
    "reinitializations (trace (new_pubsub True True ''ascii'')) = 0"
    "acquisitions (trace (new_pubsub True True ''ascii'')) = 0"
    "connection (new_pubsub True True ''ascii'') = None"
    by (simp_all add: new_pubsub_def attempts_def sleeps_def reinitializations_def
        acquisitions_def)
  from cluster_retry_gives_up [OF flaky_env_fails k, of "new_pubsub True True ''ascii''"]
  obtain e c s_last s_fail where
    r: "cluster_execute_command flaky_env [PStr ''SUBSCRIBE'', PStr ''news''] 0
          (new_pubsub True True ''ascii'')
        = (Inl e, emit (Print ''too many pubsub retries, giving up'') s_fail)"
    and u: "u_execute flaky_env c (send_command flaky_env c)
              [PStr ''SUBSCRIBE'', PStr ''news''] s_last = (Inl e, s_fail)"
    and a: "attempts (trace s_last) = 27"
    and rest: "attempts (trace s_fail) = 27"
      "sleeps (trace s_fail) = map (\<lambda>k. k + 1) [1..26]"
      "reinitializations (trace s_fail) = 26"
      "acquisitions (trace s_fail) = 27"
    unfolding z by auto
  from flaky_env_last [OF u a] r rest show ?thesis
    by (simp add: emit_print_counts)
qed

section \<open>What command execution sends and writes\<close>













section \<open>The registry update of subscribe and psubscribe\<close>









lemma dict_update_keys: "fst ` set (dict_update d new) = fst ` set d \<union> fst ` set new"
  unfolding dict_update_def
proof (induction new arbitrary: d)
  case Nil
  then show ?case by simp
next
  case (Cons p new)
  obtain k v where p: "p = (k, v)" by (cases p)
  have "fst ` set (foldl (\<lambda>d (k, v). AList.update k v d) (AList.update k v d) new)
          = fst ` set (AList.update k v d) \<union> fst ` set new"
    by (rule Cons.IH)
  with p show ?case by (simp add: AList.dom_update)
qed

lemma update_channels_simps:
  "channels (update_channels new s) = dict_update (channels s) new"
  "patterns (update_channels new s) = patterns s"
  "trace (update_channels new s) = trace s @ [UpdateChannels new]"
  "patterns (update_patterns new s) = dict_update (patterns s) new"
  "channels (update_patterns new s) = channels s"
  "trace (update_patterns new s) = trace s @ [UpdatePatterns new]"
  by (simp_all add: update_channels_def update_patterns_def emit_def)






lemmas run_defs =
  subscribe_def psubscribe_def new_registry_def encode_def fromkeys_def dict_update_def
  update_channels_def update_patterns_def
  self_execute_command_def execute_command_def u_execute_def send_command_def emit_def
  script_env_def const_env_def quiet_env_def new_pubsub_def py_str_encode_def
  py_bytes_decode_def ascii_def Let_def









section \<open>A cancelled send\<close>

lemma never_transmitted:
  "\<forall>h. send_outcome env h \<noteq> None \<Longrightarrow> \<not> transmitted_from env cmd h evs"
  by (induction evs arbitrary: h) (auto split: event.splits)

lemma u_execute_send_cancelled:
  "\<forall>h. send_outcome env h = Some CancelledError \<Longrightarrow>
   \<exists>s'. u_execute env c (send_command env c) args s = (Inr None, s')"
  by (simp add: u_execute_send_eq Let_def)

lemma self_execute_command_cancelled:
  assumes "\<forall>h. send_outcome env h = Some CancelledError"
    and "cluster s \<longrightarrow> connection s \<noteq> None \<or> 2 \<le> length args"
  shows "\<exists>s'. self_execute_command env args s = (Inr None, s')"
proof (cases "cluster s")
  case True
  with assms(2) obtain c s1 where a: "cluster_acquire env args s = (Inr c, s1)"
    using cluster_acquire_ok by blast
  from u_execute_send_cancelled [OF assms(1)] obtain s2
    where "u_execute env c (send_command env c) args s1 = (Inr None, s2)"
    by blast
  with a True show ?thesis
    by (simp add: self_execute_command_def cluster_execute_command.simps [of env args 0 s])
next
  case False
  define s2 where "s2 = (case connection s of
                  None \<Rightarrow>
                    emit (RegisterConnectCallback (get_connection_result env (trace s @ [GetConnection []])))
                      ((emit (GetConnection []) s)
                         \<lparr>connection := Some (get_connection_result env (trace s @ [GetConnection []]))\<rparr>)
                | Some c \<Rightarrow> s)"
  define c where "c = (case connection s of
                 None \<Rightarrow> get_connection_result env (trace s @ [GetConnection []])
               | Some c \<Rightarrow> c)"
  from u_execute_send_cancelled [OF assms(1)] obtain s3
    where "u_execute env c (send_command env c) args s2 = (Inr None, s3)"
    by blast
  with False show ?thesis
    by (simp add: self_execute_command_def execute_command_unfold Let_def s2_def c_def)
qed

lemma subscribe_cancelled:
  assumes "new_registry env s args kwargs = Inr new"
    and "\<forall>h. send_outcome env h = Some CancelledError"
    and "cluster s \<longrightarrow> connection s \<noteq> None \<or> new \<noteq> []"
  shows "\<exists>s'. subscribe env args kwargs s = (Inr None, s')
           \<and> channels s' = dict_update (channels s) new"
proof -
  from assms(3) have "cluster s \<longrightarrow>
      connection s \<noteq> None \<or> 2 \<le> length (PStr ''SUBSCRIBE'' # map fst new)"
    by (cases new) auto
  from self_execute_command_cancelled [OF assms(2) this] obtain s1
    where x: "self_execute_command env (PStr ''SUBSCRIBE'' # map fst new) s = (Inr None, s1)"
    by blast
  from self_execute_command_frame(1) [OF x] have "channels s1 = channels s"
    by (simp add: keeps_registry_def)
  with x assms(1) show ?thesis
    by (simp add: subscribe_def update_channels_simps)
qed

lemma psubscribe_cancelled:
  assumes "new_registry env s args kwargs = Inr new"
    and "\<forall>h. send_outcome env h = Some CancelledError"
    and "cluster s \<longrightarrow> connection s \<noteq> None \<or> new \<noteq> []"
  shows "\<exists>s'. psubscribe env args kwargs s = (Inr None, s')
           \<and> patterns s' = dict_update (patterns s) new"
proof -
  from assms(3) have "cluster s \<longrightarrow>
      connection s \<noteq> None \<or> 2 \<le> length (PStr ''PSUBSCRIBE'' # map fst new)"
    by (cases new) auto
  from self_execute_command_cancelled [OF assms(2) this] obtain s1
    where x: "self_execute_command env (PStr ''PSUBSCRIBE'' # map fst new) s = (Inr None, s1)"
    by blast
  from self_execute_command_frame(1) [OF x] have "patterns s1 = patterns s"
    by (simp add: keeps_registry_def)
  with x assms(1) show ?thesis
    by (simp add: psubscribe_def update_channels_simps)
qed

lemma new_registry_run:
  "new_registry (const_env (Some CancelledError) None True False)
       (new_pubsub False True ''ascii'') [PStr ''news''] [(''alerts'', Some 7)]
     = Inr [(PStr ''news'', None), (PStr ''alerts'', Some 7)]"
  by (simp add: run_defs)

text \<open>
  C10. When the command awaited in \<^verbatim>\<open>_execute\<close> is cancelled, \<^verbatim>\<open>_execute\<close>
  returns \<^verbatim>\<open>None\<close> and raises nothing; it asks \<^verbatim>\<open>can_read\<close> and disconnects
  exactly when the answer is yes. So when the sends are cancelled, \<^verbatim>\<open>subscribe\<close> and
  \<^verbatim>\<open>psubscribe\<close> return normally with the keys of the call in the channel (pattern)
  mapping, although no send returned. (In the cluster variant a connection must be held
  or the call must name a key, since the node is chosen by \<^verbatim>\<open>args[1]\<close>.)
\<close>

theorem cancelled_send_still_registers:
  "(command args s = (Inl CancelledError, s1) \<longrightarrow>
      u_execute env conn command args s =
        (Inr None,
         if can_read_outcome env (trace s1 @ [CanRead conn])
         then emit (Disconnect conn) (emit (CanRead conn) s1)
         else emit (CanRead conn) s1))
   \<and> (new_registry env s args kwargs = Inr new
        \<and> (\<forall>h. send_outcome env h = Some CancelledError)
        \<and> (cluster s \<longrightarrow> connection s \<noteq> None \<or> new \<noteq> []) \<longrightarrow>
        (\<exists>s'. subscribe env args kwargs s = (Inr None, s')
           \<and> channels s' = dict_update (channels s) new
           \<and> fst ` set new \<subseteq> fst ` set (channels s')
           \<and> \<not> transmitted_from env (PStr ''SUBSCRIBE'' # map fst new) (trace s)
                 (new_events s s'))
      \<and> (\<exists>s'. psubscribe env args kwargs s = (Inr None, s')
           \<and> patterns s' = dict_update (patterns s) new
           \<and> fst ` set new \<subseteq> fst ` set (patterns s')
           \<and> \<not> transmitted_from env (PStr ''PSUBSCRIBE'' # map fst new) (trace s)
                 (new_events s s')))"
proof (intro conjI impI)
  assume "command args s = (Inl CancelledError, s1)"
  then show "u_execute env conn command args s =
        (Inr None,
         if can_read_outcome env (trace s1 @ [CanRead conn])
         then emit (Disconnect conn) (emit (CanRead conn) s1)
         else emit (CanRead conn) s1)"
    by (rule u_execute_cancelled)
next
  assume a: "new_registry env s args kwargs = Inr new
        \<and> (\<forall>h. send_outcome env h = Some CancelledError)
        \<and> (cluster s \<longrightarrow> connection s \<noteq> None \<or> new \<noteq> [])"
  then have n: "\<forall>h. send_outcome env h \<noteq> None" by simp
  from a subscribe_cancelled [of env s args kwargs new] never_transmitted [OF n]
  show "\<exists>s'. subscribe env args kwargs s = (Inr None, s')
           \<and> channels s' = dict_update (channels s) new
           \<and> fst ` set new \<subseteq> fst ` set (channels s')
           \<and> \<not> transmitted_from env (PStr ''SUBSCRIBE'' # map fst new) (trace s)
                 (new_events s s')"
    by (auto simp add: dict_update_keys)
next
  assume a: "new_registry env s args kwargs = Inr new
        \<and> (\<forall>h. send_outcome env h = Some CancelledError)
        \<and> (cluster s \<longrightarrow> connection s \<noteq> None \<or> new \<noteq> [])"
  then have n: "\<forall>h. send_outcome env h \<noteq> None" by simp
  from a psubscribe_cancelled [of env s args kwargs new] never_transmitted [OF n]
  show "\<exists>s'. psubscribe env args kwargs s = (Inr None, s')
           \<and> patterns s' = dict_update (patterns s) new
           \<and> fst ` set new \<subseteq> fst ` set (patterns s')
           \<and> \<not> transmitted_from env (PStr ''PSUBSCRIBE'' # map fst new) (trace s)
                 (new_events s s')"
    by (auto simp add: dict_update_keys)
qed

theorem cancelled_send_still_registers_witness:
  "u_execute (const_env (Some CancelledError) None True False) 1
       (send_command (const_env (Some CancelledError) None True False) 1)
       [PStr ''SUBSCRIBE'', PStr ''news''] ((new_pubsub False True ''ascii'')\<lparr>connection := Some 1\<rparr>)
     = (Inr None,
        (new_pubsub False True ''ascii'')
          \<lparr>connection := Some 1,
           trace := [SendCommand 1 [PStr ''SUBSCRIBE'', PStr ''news''], CanRead 1,
                     Disconnect 1]\<rparr>)
   \<and> (\<exists>s'. subscribe (const_env (Some CancelledError) None True False)
              [PStr ''news''] [(''alerts'', Some 7)] (new_pubsub False True ''ascii'')
            = (Inr None, s')
          \<and> channels s' = [(PStr ''news'', None), (PStr ''alerts'', Some 7)])
   \<and> (\<exists>s'. psubscribe (const_env (Some CancelledError) None True False)
              [PStr ''news''] [(''alerts'', Some 7)] (new_pubsub False True ''ascii'')
            = (Inr None, s')
          \<and> patterns s' = [(PStr ''news'', None), (PStr ''alerts'', Some 7)])"
  using cancelled_send_still_registers
          [where env = "const_env (Some CancelledError) None True False" and conn = 1
             and command = "send_command (const_env (Some CancelledError) None True False) 1"
             and args = "[PStr ''SUBSCRIBE'', PStr ''news'']"
             and s = "(new_pubsub False True ''ascii'')\<lparr>connection := Some 1\<rparr>"
             and ?s1.0 = "emit (SendCommand 1 [PStr ''SUBSCRIBE'', PStr ''news''])
                           ((new_pubsub False True ''ascii'')\<lparr>connection := Some 1\<rparr>)"]
        cancelled_send_still_registers
          [where env = "const_env (Some CancelledError) None True False"
             and command = "\<lambda>a s. (Inr None, s)"
             and args = "[PStr ''news'']" and kwargs = "[(''alerts'', Some 7)]"
             and s = "new_pubsub False True ''ascii''"
             and new = "[(PStr ''news'', None), (PStr ''alerts'', Some 7)]"]
  by (simp add: new_registry_run send_command_eq)
     (auto simp add: const_env_def script_env_def emit_def new_pubsub_def dict_update_def)

section \<open>Replay of the registry\<close>

lemma replay_name_encode:
  "replay_name env s k = Some t \<Longrightarrow> encode env s (PStr t) = Inr k"
  by (auto simp add: replay_name_def encode_def split: pyval.splits if_splits sum.splits)

lemma replay_name_inj:
  "replay_name env s k1 = Some t \<Longrightarrow> replay_name env s k2 = Some t \<Longrightarrow> k1 = k2"
  using replay_name_encode [of env s k1 t] replay_name_encode [of env s k2 t] by simp

lemma replay_name_not_self: "replay_name env s k = Some t \<Longrightarrow> t \<noteq> ''self''"
  by (auto simp add: replay_name_def split: pyval.splits if_splits sum.splits)

lemma update_fresh: "k \<notin> fst ` set al \<Longrightarrow> AList.update k v al = al @ [(k, v)]"
  by (induction al) auto

lemma replay_kwargs_names:
  "(t, v) \<in> set (replay_kwargs env s d) \<Longrightarrow> \<exists>k. (k, v) \<in> set d \<and> replay_name env s k = Some t"
proof (induction d)
  case Nil
  then show ?case by simp
next
  case (Cons p d)
  obtain k' v' where p: "p = (k', v')" by (cases p)
  show ?case
  proof (cases "(t, v) \<in> set (replay_kwargs env s d)")
    case True
    with Cons.IH show ?thesis by auto
  next
    case False
    with Cons.prems p have "replay_name env s k' = Some t" and "v' = v"
      by (auto split: option.splits)
    with p show ?thesis by auto
  qed
qed

lemma replay_kwargs_distinct:
  "distinct (map fst d) \<Longrightarrow> distinct (map fst (replay_kwargs env s d))"
proof (induction d)
  case Nil
  then show ?case by simp
next
  case (Cons p d)
  obtain k v where p: "p = (k, v)" by (cases p)
  show ?case
  proof (cases "replay_name env s k")
    case None
    with Cons p show ?thesis by simp
  next
    case (Some t)
    have "t \<notin> fst ` set (replay_kwargs env s d)"
    proof
      assume "t \<in> fst ` set (replay_kwargs env s d)"
      then obtain v' where "(t, v') \<in> set (replay_kwargs env s d)" by auto
      then obtain k' where "(k', v') \<in> set d" "replay_name env s k' = Some t"
        using replay_kwargs_names by blast
      with Some have "k' = k" "k' \<in> fst ` set d"
        using replay_name_inj by (blast, force)
      with Cons.prems p show False by simp
    qed
    with Cons p Some show ?thesis by simp
  qed
qed

lemma replay_kwargs_all2:
  "list_all (\<lambda>(k, v). replay_name env s k \<noteq> None) d \<Longrightarrow>
   list_all2 (\<lambda>(t, h) (k, h'). h = h' \<and> replay_name env s k = Some t)
     (replay_kwargs env s d) d"
  by (induction d) auto

lemma decode_keys_replay:
  assumes "list_all (\<lambda>(k, v). replay_name env s k \<noteq> None) d"
    and "distinct (map fst acc @ map (\<lambda>p. PStr (fst p)) (replay_kwargs env s d))"
  shows "decode_keys env s d acc
           = Inr (acc @ map (\<lambda>(t, v). (PStr t, v)) (replay_kwargs env s d))"
  using assms
proof (induction d arbitrary: acc)
  case Nil
  then show ?case by simp
next
  case (Cons p d)
  obtain k v where p: "p = (k, v)" by (cases p)
  from Cons.prems(1) p obtain t where t: "replay_name env s k = Some t"
    and rest: "list_all (\<lambda>(k, v). replay_name env s k \<noteq> None) d"
    by auto
  from Cons.prems(2) p t have fresh: "PStr t \<notin> fst ` set acc"
    and d': "distinct (map fst (acc @ [(PStr t, v)]) @ map (\<lambda>p. PStr (fst p)) (replay_kwargs env s d))"
    by auto
  have step: "decode_keys env s (p # d) acc = decode_keys env s d (acc @ [(PStr t, v)])"
    using t p fresh
    by (auto simp add: replay_name_def update_fresh split: pyval.splits if_splits sum.splits)
  from Cons.IH [OF rest d'] step p t show ?case by simp
qed

lemma bind_kwargs_replay:
  "\<forall>(t, v)\<in>set kw. t \<noteq> ''self'' \<Longrightarrow> bind_kwargs (map (\<lambda>(t, v). (PStr t, v)) kw) = Inr kw"
  by (induction kw) auto

lemma add_kwargs_replay:
  assumes "list_all (\<lambda>(k, v). replay_name env s k \<noteq> None) d"
    and "distinct (map fst (acc @ d))"
  shows "add_kwargs env s (replay_kwargs env s d) acc = Inr (acc @ d)"
  using assms
proof (induction d arbitrary: acc)
  case Nil
  then show ?case by simp
next
  case (Cons p d)
  obtain k v where p: "p = (k, v)" by (cases p)
  from Cons.prems(1) p obtain t where t: "replay_name env s k = Some t"
    and rest: "list_all (\<lambda>(k, v). replay_name env s k \<noteq> None) d"
    by auto
  from Cons.prems(2) p have fresh: "k \<notin> fst ` set acc"
    and d': "distinct (map fst ((acc @ [(k, v)]) @ d))"
    by auto
  from Cons.IH [OF rest d'] p t fresh show ?case
    by (simp add: replay_name_encode update_fresh)
qed

lemma dict_update_same:
  assumes "distinct (map fst d)" and "set new \<subseteq> set d"
  shows "dict_update d new = d"
  using assms(2)
proof (induction new)
  case Nil
  then show ?case by (simp add: dict_update_def)
next
  case (Cons p new)
  obtain k v where p: "p = (k, v)" by (cases p)
  with Cons.prems have "map_of d k = Some v"
    using assms(1) by simp
  then have "AList.update k v d = d" by (rule AList.update_triv)
  with Cons p show ?case by (simp add: dict_update_def)
qed

lemma new_registry_replay:
  assumes "replayable env s d"
  shows "new_registry env s [] (replay_kwargs env s d) = Inr d"
  using assms add_kwargs_replay [of env s d "[]"]
  by (simp add: new_registry_def fromkeys_def replayable_def)

lemma replay_cong:
  assumes "decode_responses s1 = decode_responses s" and "encoding s1 = encoding s"
  shows "replay_name env s1 = replay_name env s"
    and "replay_kwargs env s1 d = replay_kwargs env s d"
    and "replayable env s1 d = replayable env s d"
    and "decode_keys env s1 d acc = decode_keys env s d acc"
proof -
  show n: "replay_name env s1 = replay_name env s"
    using assms by (auto simp add: replay_name_def fun_eq_iff split: pyval.splits sum.splits)
  show "replay_kwargs env s1 d = replay_kwargs env s d"
    by (induction d) (auto simp add: n split: option.splits)
  show "replayable env s1 d = replayable env s d"
    by (simp add: replayable_def n)
  show "decode_keys env s1 d acc = decode_keys env s d acc"
    using assms by (induction d arbitrary: acc) (auto split: pyval.splits sum.splits)
qed

lemma replay_decode_bind:
  assumes "replayable env s d"
  shows "decode_keys env s d [] = Inr (map (\<lambda>(t, v). (PStr t, v)) (replay_kwargs env s d))"
    and "bind_kwargs (map (\<lambda>(t, v). (PStr t, v)) (replay_kwargs env s d))
           = Inr (replay_kwargs env s d)"
proof -
  from assms have a: "list_all (\<lambda>(k, v). replay_name env s k \<noteq> None) d"
    and dd: "distinct (map fst d)"
    by (simp_all add: replayable_def)
  have "distinct (map fst (replay_kwargs env s d))"
    using dd by (rule replay_kwargs_distinct)
  then have "distinct (map (\<lambda>p. PStr (fst p)) (replay_kwargs env s d))"
    by (simp add: distinct_map inj_on_def)
  with decode_keys_replay [OF a, of "[]"]
  show "decode_keys env s d [] = Inr (map (\<lambda>(t, v). (PStr t, v)) (replay_kwargs env s d))"
    by simp
  have "\<forall>(t, v)\<in>set (replay_kwargs env s d). t \<noteq> ''self''"
    using replay_kwargs_names replay_name_not_self by fast
  then show "bind_kwargs (map (\<lambda>(t, v). (PStr t, v)) (replay_kwargs env s d))
           = Inr (replay_kwargs env s d)"
    by (rule bind_kwargs_replay)
qed


lemma subscribe_replay:
  assumes "replayable env s (channels s)"
  shows "subscribe env [] (replay_kwargs env s (channels s)) s =
     (case self_execute_command env (PStr ''SUBSCRIBE'' # map fst (channels s)) s of
        (Inl e, s1) \<Rightarrow> (Inl e, s1)
      | (Inr u, s1) \<Rightarrow> (Inr u, emit (UpdateChannels (channels s)) s1))"
proof -
  obtain r s1 where x: "self_execute_command env (PStr ''SUBSCRIBE'' # map fst (channels s)) s = (r, s1)"
    by (cases "self_execute_command env (PStr ''SUBSCRIBE'' # map fst (channels s)) s")
  from self_execute_command_frame(1) [OF x] have c: "channels s1 = channels s"
    by (simp add: keeps_registry_def)
  from assms have "dict_update (channels s) (channels s) = channels s"
    by (simp add: dict_update_same replayable_def)
  with c have "s1\<lparr>channels := dict_update (channels s1) (channels s)\<rparr> = s1"
    by simp
  then have u: "update_channels (channels s) s1 = emit (UpdateChannels (channels s)) s1"
    by (simp add: update_channels_def)
  show ?thesis
  proof (cases r)
    case (Inl e)
    with x new_registry_replay [OF assms] show ?thesis by (simp add: subscribe_def)
  next
    case (Inr v)
    with self_execute_command_frame(2) [OF x] have "v = None" by simp
    with Inr x new_registry_replay [OF assms] u show ?thesis by (simp add: subscribe_def)
  qed
qed

lemma psubscribe_replay:
  assumes "replayable env s (patterns s)"
  shows "psubscribe env [] (replay_kwargs env s (patterns s)) s =
     (case self_execute_command env (PStr ''PSUBSCRIBE'' # map fst (patterns s)) s of
        (Inl e, s1) \<Rightarrow> (Inl e, s1)
      | (Inr u, s1) \<Rightarrow> (Inr u, emit (UpdatePatterns (patterns s)) s1))"
proof -
  obtain r s1 where x: "self_execute_command env (PStr ''PSUBSCRIBE'' # map fst (patterns s)) s = (r, s1)"
    by (cases "self_execute_command env (PStr ''PSUBSCRIBE'' # map fst (patterns s)) s")
  from self_execute_command_frame(1) [OF x] have c: "patterns s1 = patterns s"
    by (simp add: keeps_registry_def)
  from assms have "dict_update (patterns s) (patterns s) = patterns s"
    by (simp add: dict_update_same replayable_def)
  with c have "s1\<lparr>patterns := dict_update (patterns s1) (patterns s)\<rparr> = s1"
    by simp
  then have u: "update_patterns (patterns s) s1 = emit (UpdatePatterns (patterns s)) s1"
    by (simp add: update_patterns_def)
  show ?thesis
  proof (cases r)
    case (Inl e)
    with x new_registry_replay [OF assms] show ?thesis by (simp add: psubscribe_def)
  next
    case (Inr v)
    with self_execute_command_frame(2) [OF x] have "v = None" by simp
    with Inr x new_registry_replay [OF assms] u show ?thesis by (simp add: psubscribe_def)
  qed
qed

lemma subscribe_replay_keeps:
  assumes "replayable env s (channels s)"
    and "subscribe env [] (replay_kwargs env s (channels s)) s = (r, s')"
  shows "keeps_registry s s'"
proof -
  obtain r1 s1 where x: "self_execute_command env (PStr ''SUBSCRIBE'' # map fst (channels s)) s = (r1, s1)"
    by (cases "self_execute_command env (PStr ''SUBSCRIBE'' # map fst (channels s)) s")
  have k: "keeps_registry s s1" using x by (rule self_execute_command_frame(1))
  from assms(2) x have "s' = s1 \<or> s' = emit (UpdateChannels (channels s)) s1"
    unfolding subscribe_replay [OF assms(1)] by (cases r1) auto
  with k show ?thesis
    using keeps_registry_emit keeps_registry_trans by blast
qed

lemma psubscribe_replay_keeps:
  assumes "replayable env s (patterns s)"
    and "psubscribe env [] (replay_kwargs env s (patterns s)) s = (r, s')"
  shows "keeps_registry s s'"
proof -
  obtain r1 s1 where x: "self_execute_command env (PStr ''PSUBSCRIBE'' # map fst (patterns s)) s = (r1, s1)"
    by (cases "self_execute_command env (PStr ''PSUBSCRIBE'' # map fst (patterns s)) s")
  have k: "keeps_registry s s1" using x by (rule self_execute_command_frame(1))
  from assms(2) x have "s' = s1 \<or> s' = emit (UpdatePatterns (patterns s)) s1"
    unfolding psubscribe_replay [OF assms(1)] by (cases r1) auto
  with k show ?thesis
    using keeps_registry_emit keeps_registry_trans by blast
qed

lemma keeps_registry_replay:
  assumes "keeps_registry s s1"
  shows "replay_kwargs env s1 (patterns s1) = replay_kwargs env s (patterns s)"
    and "replayable env s1 (patterns s1) = replayable env s (patterns s)"
    and "decode_keys env s1 (patterns s1) [] = decode_keys env s (patterns s) []"
  using assms replay_cong [of s1 s env]
  by (simp_all add: keeps_registry_def)

lemma on_connect_calls:
  assumes c: "replayable env s (channels s)" and p: "replayable env s (patterns s)"
  shows "on_connect env s =
     (case (if channels s \<noteq> []
            then subscribe env [] (replay_kwargs env s (channels s)) s
            else (Inr None, s)) of
        (Inl e, s1) \<Rightarrow> (Inl e, s1)
      | (Inr u, s1) \<Rightarrow>
          if patterns s \<noteq> [] then
            (case psubscribe env [] (replay_kwargs env s (patterns s)) s1 of
               (Inl e, s2) \<Rightarrow> (Inl e, s2)
             | (Inr u', s2) \<Rightarrow> (Inr None, s2))
          else (Inr None, s1))"
proof -
  define first where "first = (if channels s \<noteq> []
            then subscribe env [] (replay_kwargs env s (channels s)) s
            else (Inr None, s))"
  obtain r s1 where f: "first = (r, s1)" by (cases first)
  have k: "keeps_registry s s1"
  proof (cases "channels s \<noteq> []")
    case True
    with f have "subscribe env [] (replay_kwargs env s (channels s)) s = (r, s1)"
      by (simp add: first_def)
    with c show ?thesis by (rule subscribe_replay_keeps)
  next
    case False
    with f show ?thesis by (simp add: first_def keeps_registry_refl)
  qed
  have step1: "(if channels s \<noteq> [] then
              (case decode_keys env s (channels s) [] of
                 Inl e \<Rightarrow> (Inl e, s)
               | Inr chans \<Rightarrow>
                   (case bind_kwargs chans of
                      Inl e \<Rightarrow> (Inl e, s)
                    | Inr kw \<Rightarrow> subscribe env [] kw s))
            else (Inr None, s)) = first"
    by (simp add: replay_decode_bind [OF c] first_def)
  from k have ps: "patterns s1 = patterns s" by (simp add: keeps_registry_def)
  from p keeps_registry_replay(2) [OF k] have p1: "replayable env s1 (patterns s1)"
    by simp
  have kw: "replay_kwargs env s1 (patterns s) = replay_kwargs env s (patterns s)"
    using keeps_registry_replay(1) [OF k, of env] ps by simp
  have step2: "(case decode_keys env s1 (patterns s) [] of
               Inl e \<Rightarrow> (Inl e, s1)
             | Inr pats \<Rightarrow>
                 (case bind_kwargs pats of
                    Inl e \<Rightarrow> (Inl e, s1)
                  | Inr kw \<Rightarrow>
                      (case psubscribe env [] kw s1 of
                         (Inl e, s2) \<Rightarrow> (Inl e, s2)
                       | (Inr u', s2) \<Rightarrow> (Inr None, s2))))
        = (case psubscribe env [] (replay_kwargs env s (patterns s)) s1 of
               (Inl e, s2) \<Rightarrow> (Inl e, s2)
             | (Inr u', s2) \<Rightarrow> (Inr None, s2))"
  proof -
    have d: "decode_keys env s1 (patterns s) [] =
        Inr (map (\<lambda>(t, v). (PStr t, v)) (replay_kwargs env s (patterns s)))"
      using replay_decode_bind(1) [OF p1] ps kw by simp
    have b: "bind_kwargs (map (\<lambda>(t, v). (PStr t, v)) (replay_kwargs env s (patterns s)))
        = Inr (replay_kwargs env s (patterns s))"
      using p by (rule replay_decode_bind(2))
    show ?thesis by (simp add: d b)
  qed
  show ?thesis
    unfolding on_connect_def step1 first_def [symmetric] f
    by (cases r) (simp_all add: step2 ps)
qed

lemma on_connect_replay:
  assumes c: "replayable env s (channels s)" and p: "replayable env s (patterns s)"
  shows "on_connect env s =
     (case (if channels s \<noteq> [] then
              (case self_execute_command env (PStr ''SUBSCRIBE'' # map fst (channels s)) s of
                 (Inl e, s1) \<Rightarrow> (Inl e, s1)
               | (Inr u, s1) \<Rightarrow> (Inr u, emit (UpdateChannels (channels s)) s1))
            else (Inr None, s)) of
        (Inl e, s1) \<Rightarrow> (Inl e, s1)
      | (Inr u, s1) \<Rightarrow>
          if patterns s \<noteq> [] then
            (case self_execute_command env (PStr ''PSUBSCRIBE'' # map fst (patterns s)) s1 of
               (Inl e, s2) \<Rightarrow> (Inl e, s2)
             | (Inr u', s2) \<Rightarrow> (Inr None, emit (UpdatePatterns (patterns s)) s2))
          else (Inr None, s1))"
proof -
  define first where "first = (if channels s \<noteq> []
            then subscribe env [] (replay_kwargs env s (channels s)) s
            else (Inr None, s))"
  obtain r s1 where f: "first = (r, s1)" by (cases first)
  have k: "keeps_registry s s1"
  proof (cases "channels s \<noteq> []")
    case True
    with f have "subscribe env [] (replay_kwargs env s (channels s)) s = (r, s1)"
      by (simp add: first_def)
    with c show ?thesis by (rule subscribe_replay_keeps)
  next
    case False
    with f show ?thesis by (simp add: first_def keeps_registry_refl)
  qed
  from k have ps: "patterns s1 = patterns s" by (simp add: keeps_registry_def)
  from p keeps_registry_replay(2) [OF k] have p1: "replayable env s1 (patterns s1)"
    by simp
  have kw: "replay_kwargs env s1 (patterns s) = replay_kwargs env s (patterns s)"
    using keeps_registry_replay(1) [OF k, of env] ps by simp
  have second: "(case psubscribe env [] (replay_kwargs env s (patterns s)) s1 of
               (Inl e, s2) \<Rightarrow> (Inl e, s2)
             | (Inr u', s2) \<Rightarrow> (Inr None, s2))
        = (case self_execute_command env (PStr ''PSUBSCRIBE'' # map fst (patterns s)) s1 of
               (Inl e, s2) \<Rightarrow> (Inl e, s2)
             | (Inr u', s2) \<Rightarrow> (Inr None, emit (UpdatePatterns (patterns s)) s2))"
    using psubscribe_replay [OF p1, unfolded ps kw]
    by (simp split: prod.splits sum.splits)
  have "on_connect env s =
     (case first of
        (Inl e, s1) \<Rightarrow> (Inl e, s1)
      | (Inr u, s1) \<Rightarrow>
          if patterns s \<noteq> [] then
            (case psubscribe env [] (replay_kwargs env s (patterns s)) s1 of
               (Inl e, s2) \<Rightarrow> (Inl e, s2)
             | (Inr u', s2) \<Rightarrow> (Inr None, s2))
          else (Inr None, s1))"
    unfolding first_def by (rule on_connect_calls [OF c p])
  also have "\<dots> =
     (case first of
        (Inl e, s1) \<Rightarrow> (Inl e, s1)
      | (Inr u, s1) \<Rightarrow>
          if patterns s \<noteq> [] then
            (case self_execute_command env (PStr ''PSUBSCRIBE'' # map fst (patterns s)) s1 of
               (Inl e, s2) \<Rightarrow> (Inl e, s2)
             | (Inr u', s2) \<Rightarrow> (Inr None, emit (UpdatePatterns (patterns s)) s2))
          else (Inr None, s1))"
    unfolding f by (cases r) (simp_all add: second)
  finally have o: "on_connect env s =
     (case first of
        (Inl e, s1) \<Rightarrow> (Inl e, s1)
      | (Inr u, s1) \<Rightarrow>
          if patterns s \<noteq> [] then
            (case self_execute_command env (PStr ''PSUBSCRIBE'' # map fst (patterns s)) s1 of
               (Inl e, s2) \<Rightarrow> (Inl e, s2)
             | (Inr u', s2) \<Rightarrow> (Inr None, emit (UpdatePatterns (patterns s)) s2))
          else (Inr None, s1))" .
  have fs: "first = (if channels s \<noteq> [] then
              (case self_execute_command env (PStr ''SUBSCRIBE'' # map fst (channels s)) s of
                 (Inl e, s1) \<Rightarrow> (Inl e, s1)
               | (Inr u, s1) \<Rightarrow> (Inr u, emit (UpdateChannels (channels s)) s1))
            else (Inr None, s))"
    unfolding first_def subscribe_replay [OF c] ..
  show ?thesis using o unfolding fs .
qed

lemma on_connect_keeps:
  assumes c: "replayable env s (channels s)" and p: "replayable env s (patterns s)"
  shows "keeps_registry s (snd (on_connect env s))"
proof -
  define first where "first = (if channels s \<noteq> []
            then subscribe env [] (replay_kwargs env s (channels s)) s
            else (Inr None, s))"
  obtain r s1 where f: "first = (r, s1)" by (cases first)
  have k: "keeps_registry s s1"
  proof (cases "channels s \<noteq> []")
    case True
    with f have "subscribe env [] (replay_kwargs env s (channels s)) s = (r, s1)"
      by (simp add: first_def)
    with c show ?thesis by (rule subscribe_replay_keeps)
  next
    case False
    with f show ?thesis by (simp add: first_def keeps_registry_refl)
  qed
  from k have ps: "patterns s1 = patterns s" by (simp add: keeps_registry_def)
  from p keeps_registry_replay(2) [OF k] have p1: "replayable env s1 (patterns s1)"
    by simp
  have kw: "replay_kwargs env s1 (patterns s1) = replay_kwargs env s (patterns s)"
    using keeps_registry_replay(1) [OF k, of env] by simp
  obtain r2 s2 where x: "psubscribe env [] (replay_kwargs env s (patterns s)) s1 = (r2, s2)"
    by (cases "psubscribe env [] (replay_kwargs env s (patterns s)) s1")
  have "keeps_registry s1 s2"
    using psubscribe_replay_keeps [OF p1] x kw by simp
  with k have k2: "keeps_registry s s2" by (rule keeps_registry_trans)
  have "snd (on_connect env s) = s1 \<or> snd (on_connect env s) = s2"
    unfolding on_connect_calls [OF c p] first_def [symmetric] f
    using x by (cases r; cases r2) auto
  with k k2 show ?thesis by auto
qed

lemmas replay_defs =
  on_connect_def decode_keys.simps bind_kwargs.simps replayable_def replay_name_def
  add_kwargs.simps encode_args.simps

text \<open>
  C3, amended. For a session whose keys can all be replayed (distinct keys, each the text
  the session would store, or in raw-byte mode bytes that decode to text and encode back
  to themselves, none being the text \<^verbatim>\<open>self\<close>): \<^verbatim>\<open>on_connect\<close> calls
  \<^verbatim>\<open>subscribe\<close> with the channel mapping under the decoded names and the same
  handlers when that mapping is not empty and, only if that call returns,
  \<^verbatim>\<open>psubscribe\<close> likewise with a non-empty pattern mapping. The commands sent are
  \<^verbatim>\<open>SUBSCRIBE\<close> and \<^verbatim>\<open>PSUBSCRIBE\<close> with exactly the stored keys, each
  followed, when its \<^verbatim>\<open>execute_command\<close> returns, by the update of the mapping with
  itself, and however \<^verbatim>\<open>on_connect\<close> ends both mappings are as before.
\<close>

theorem on_connect_replays_registry:
  assumes "replayable env s (channels s)" and "replayable env s (patterns s)"
  shows "on_connect env s =
     (case (if channels s \<noteq> []
            then subscribe env [] (replay_kwargs env s (channels s)) s
            else (Inr None, s)) of
        (Inl e, s1) \<Rightarrow> (Inl e, s1)
      | (Inr u, s1) \<Rightarrow>
          if patterns s \<noteq> [] then
            (case psubscribe env [] (replay_kwargs env s (patterns s)) s1 of
               (Inl e, s2) \<Rightarrow> (Inl e, s2)
             | (Inr u', s2) \<Rightarrow> (Inr None, s2))
          else (Inr None, s1))
   \<and> list_all2 (\<lambda>(t, h) (k, h'). h = h' \<and> replay_name env s k = Some t)
        (replay_kwargs env s (channels s)) (channels s)
   \<and> list_all2 (\<lambda>(t, h) (k, h'). h = h' \<and> replay_name env s k = Some t)
        (replay_kwargs env s (patterns s)) (patterns s)
   \<and> on_connect env s =
     (case (if channels s \<noteq> [] then
              (case self_execute_command env (PStr ''SUBSCRIBE'' # map fst (channels s)) s of
                 (Inl e, s1) \<Rightarrow> (Inl e, s1)
               | (Inr u, s1) \<Rightarrow> (Inr u, emit (UpdateChannels (channels s)) s1))
            else (Inr None, s)) of
        (Inl e, s1) \<Rightarrow> (Inl e, s1)
      | (Inr u, s1) \<Rightarrow>
          if patterns s \<noteq> [] then
            (case self_execute_command env (PStr ''PSUBSCRIBE'' # map fst (patterns s)) s1 of
               (Inl e, s2) \<Rightarrow> (Inl e, s2)
             | (Inr u', s2) \<Rightarrow> (Inr None, emit (UpdatePatterns (patterns s)) s2))
          else (Inr None, s1))
   \<and> channels (snd (on_connect env s)) = channels s
   \<and> patterns (snd (on_connect env s)) = patterns s"
proof (intro conjI)
  show "on_connect env s =
     (case (if channels s \<noteq> []
            then subscribe env [] (replay_kwargs env s (channels s)) s
            else (Inr None, s)) of
        (Inl e, s1) \<Rightarrow> (Inl e, s1)
      | (Inr u, s1) \<Rightarrow>
          if patterns s \<noteq> [] then
            (case psubscribe env [] (replay_kwargs env s (patterns s)) s1 of
               (Inl e, s2) \<Rightarrow> (Inl e, s2)
             | (Inr u', s2) \<Rightarrow> (Inr None, s2))
          else (Inr None, s1))"
    using assms by (rule on_connect_calls)
  show "list_all2 (\<lambda>(t, h) (k, h'). h = h' \<and> replay_name env s k = Some t)
        (replay_kwargs env s (channels s)) (channels s)"
    using assms(1) by (simp add: replayable_def replay_kwargs_all2)
  show "list_all2 (\<lambda>(t, h) (k, h'). h = h' \<and> replay_name env s k = Some t)
        (replay_kwargs env s (patterns s)) (patterns s)"
    using assms(2) by (simp add: replayable_def replay_kwargs_all2)
  show "on_connect env s =
     (case (if channels s \<noteq> [] then
              (case self_execute_command env (PStr ''SUBSCRIBE'' # map fst (channels s)) s of
                 (Inl e, s1) \<Rightarrow> (Inl e, s1)
               | (Inr u, s1) \<Rightarrow> (Inr u, emit (UpdateChannels (channels s)) s1))
            else (Inr None, s)) of
        (Inl e, s1) \<Rightarrow> (Inl e, s1)
      | (Inr u, s1) \<Rightarrow>
          if patterns s \<noteq> [] then
            (case self_execute_command env (PStr ''PSUBSCRIBE'' # map fst (patterns s)) s1 of
               (Inl e, s2) \<Rightarrow> (Inl e, s2)
             | (Inr u', s2) \<Rightarrow> (Inr None, emit (UpdatePatterns (patterns s)) s2))
          else (Inr None, s1))"
    using assms by (rule on_connect_replay)
  from on_connect_keeps [OF assms]
  show "channels (snd (on_connect env s)) = channels s"
    and "patterns (snd (on_connect env s)) = patterns s"
    by (simp_all add: keeps_registry_def)
qed

text \<open>
  The claim as stated promises both calls for every session. \<^verbatim>\<open>on_connect\<close> awaits
  \<^verbatim>\<open>subscribe\<close> before it looks at the patterns, so a \<^verbatim>\<open>SUBSCRIBE\<close> whose send
  times out (on a connection without \<^verbatim>\<open>retry_on_timeout\<close>) ends the replay: the
  exception reaches the caller and no \<^verbatim>\<open>PSUBSCRIBE\<close> is issued for the stored
  pattern.
\<close>

theorem on_connect_replays_registry_counterexample:
  "on_connect (const_env (Some TimeoutError) None False False)
       ((new_pubsub False False ''ascii'')
          \<lparr>connection := Some 1,
           channels := [(PBytes ''news'', None)],
           patterns := [(PBytes ''n*'', Some 3)]\<rparr>)
     = (Inl TimeoutError,
        (new_pubsub False False ''ascii'')
          \<lparr>connection := Some 1,
           channels := [(PBytes ''news'', None)],
           patterns := [(PBytes ''n*'', Some 3)],
           trace := [SendCommand 1 [PStr ''SUBSCRIBE'', PBytes ''news''], Disconnect 1]\<rparr>)"
  by (simp add: run_defs replay_defs)

theorem on_connect_replays_registry_witness:
  "on_connect quiet_env
       ((new_pubsub False False ''ascii'')
          \<lparr>connection := Some 1,
           channels := [(PBytes ''news'', None), (PBytes ''alerts'', Some 7)],
           patterns := [(PBytes ''n*'', Some 3)]\<rparr>)
     = (Inr None,
        (new_pubsub False False ''ascii'')
          \<lparr>connection := Some 1,
           channels := [(PBytes ''news'', None), (PBytes ''alerts'', Some 7)],
           patterns := [(PBytes ''n*'', Some 3)],
           trace := [SendCommand 1 [PStr ''SUBSCRIBE'', PBytes ''news'', PBytes ''alerts''],
                     UpdateChannels [(PBytes ''news'', None), (PBytes ''alerts'', Some 7)],
                     SendCommand 1 [PStr ''PSUBSCRIBE'', PBytes ''n*''],
                     UpdatePatterns [(PBytes ''n*'', Some 3)]]\<rparr>)
   \<and> replay_kwargs quiet_env (new_pubsub False False ''ascii'')
         [(PBytes ''news'', None), (PBytes ''alerts'', Some 7)]
       = [(''news'', None), (''alerts'', Some 7)]"
proof -
  define s where "s = (new_pubsub False False ''ascii'')
          \<lparr>connection := Some 1,
           channels := [(PBytes ''news'', None), (PBytes ''alerts'', Some 7)],
           patterns := [(PBytes ''n*'', Some 3)]\<rparr>"
  have c: "replayable quiet_env s (channels s)" and p: "replayable quiet_env s (patterns s)"
    by (simp_all add: s_def run_defs replay_defs)
  have x: "self_execute_command quiet_env
             [PStr ''SUBSCRIBE'', PBytes ''news'', PBytes ''alerts''] s
           = (Inr None, s\<lparr>trace := [SendCommand 1
                 [PStr ''SUBSCRIBE'', PBytes ''news'', PBytes ''alerts'']]\<rparr>)"
    by (simp add: s_def run_defs)
  have y: "self_execute_command quiet_env [PStr ''PSUBSCRIBE'', PBytes ''n*'']
             (s\<lparr>trace := [SendCommand 1
                 [PStr ''SUBSCRIBE'', PBytes ''news'', PBytes ''alerts''],
                 UpdateChannels [(PBytes ''news'', None), (PBytes ''alerts'', Some 7)]]\<rparr>)
           = (Inr None, s\<lparr>trace := [SendCommand 1
                 [PStr ''SUBSCRIBE'', PBytes ''news'', PBytes ''alerts''],
                 UpdateChannels [(PBytes ''news'', None), (PBytes ''alerts'', Some 7)],
                 SendCommand 1 [PStr ''PSUBSCRIBE'', PBytes ''n*'']]\<rparr>)"
    by (simp add: s_def run_defs)
  have z: "channels s = [(PBytes ''news'', None), (PBytes ''alerts'', Some 7)]"
    "patterns s = [(PBytes ''n*'', Some 3)]"
    by (simp_all add: s_def)
  note w = on_connect_replays_registry
             [OF c p, THEN conjunct2, THEN conjunct2, THEN conjunct2, THEN conjunct1]
  have "on_connect quiet_env s = (Inr None, s\<lparr>trace := [SendCommand 1
                 [PStr ''SUBSCRIBE'', PBytes ''news'', PBytes ''alerts''],
                 UpdateChannels [(PBytes ''news'', None), (PBytes ''alerts'', Some 7)],
                 SendCommand 1 [PStr ''PSUBSCRIBE'', PBytes ''n*''],
                 UpdatePatterns [(PBytes ''n*'', Some 3)]]\<rparr>)"
    unfolding w by (simp add: z x y emit_def del: One_nat_def)
  moreover have "replay_kwargs quiet_env (new_pubsub False False ''ascii'')
         [(PBytes ''news'', None), (PBytes ''alerts'', Some 7)]
       = [(''news'', None), (''alerts'', Some 7)]"
    by (simp add: run_defs replay_defs)
  ultimately show ?thesis by (simp add: s_def)
qed

text \<open>
  A key whose bytes do not decode is not among the keys that can be replayed, and the
  statement above says nothing about a session holding one. \<^verbatim>\<open>subscribe\<close> accepts
  such a name in raw-byte mode; \<^verbatim>\<open>on_connect\<close> then raises at
  \<^verbatim>\<open>k.decode(self.encoding)\<close> before it calls anything, although its docstring
  reads ``Re-subscribe to any channels and patterns previously subscribed to''.
\<close>

lemma on_connect_undecodable_key:
  "fst (subscribe quiet_env [PBytes [CHR 0xFF]] [] (new_pubsub False False ''ascii'')) = Inr None
   \<and> channels (snd (subscribe quiet_env [PBytes [CHR 0xFF]] []
         (new_pubsub False False ''ascii''))) = [(PBytes [CHR 0xFF], None)]
   \<and> fst (on_connect quiet_env (snd (subscribe quiet_env [PBytes [CHR 0xFF]] []
         (new_pubsub False False ''ascii'')))) = Inl (Exc ''UnicodeDecodeError'')
   \<and> trace (snd (on_connect quiet_env (snd (subscribe quiet_env [PBytes [CHR 0xFF]] []
         (new_pubsub False False ''ascii'')))))
       = trace (snd (subscribe quiet_env [PBytes [CHR 0xFF]] []
           (new_pubsub False False ''ascii'')))"
  by (simp add: run_defs replay_defs)

end
